theory Spec2Isabelle
  imports Complex_Main "HOL-Library.Log_Nat"
begin

section \<open>MOBIPAY: fare charges, fee split, gateway client and settlement handlers\<close>

text \<open>
  A shallow embedding of the payment backend: the validation helpers and business rules
  (\<^verbatim>\<open>utils/validation\<close>), the split calculator (\<^verbatim>\<open>utils/money-split\<close>), the M-Pesa
  client (\<^verbatim>\<open>services/mpesa-service\<close>) and the three payment routes of \<^verbatim>\<open>server2.js\<close>.

  Numbers: the amounts handled here are small integers and percentages with a few
  decimals. JavaScript numbers are embedded as exact integers (\<open>int\<close>) and rationals
  (\<open>rat\<close>); \<^verbatim>\<open>NaN\<close> is \<open>None\<close> where a function can produce it. Rounding to
  binary64 is defined separately, and the fee is shown to come out the same in doubles for
  every amount the validation admits.
\<close>

subsection \<open>JavaScript values and numbers\<close>

text \<open>\<^verbatim>\<open>Math.round\<close>: the nearest integer, a tie going towards plus infinity.\<close>

definition js_round :: "rat \<Rightarrow> int" where
  "js_round x = \<lfloor>x + 1 / 2\<rfloor>"

text \<open>
  A JSON value as a request or a provider response carries it. Objects and arrays are
  opaque (\<open>JObject\<close>): the code only tests them for truthiness.
\<close>

datatype jsval = JUndefined | JNull | JBool bool | JNum int | JStr string | JObject

fun truthy :: "jsval \<Rightarrow> bool" where
  "truthy JUndefined = False"
| "truthy JNull = False"
| "truthy (JBool b) = b"
| "truthy (JNum n) = (n \<noteq> 0)"
| "truthy (JStr s) = (s \<noteq> [])"
| "truthy JObject = True"

text \<open>\<^verbatim>\<open>a || b\<close> on values.\<close>

definition js_or :: "jsval \<Rightarrow> jsval \<Rightarrow> jsval" where
  "js_or a b = (if truthy a then a else b)"

subsection \<open>Decimal digits\<close>

definition is_digit :: "char \<Rightarrow> bool" where
  "is_digit c = (c \<in> set ''0123456789'')"

text \<open>\<^verbatim>\<open>s.replace(/\D/g, '')\<close>: every character that is not a decimal digit is deleted.\<close>

definition strip_non_digits :: "string \<Rightarrow> string" where
  "strip_non_digits s = filter is_digit s"

definition digit_val :: "char \<Rightarrow> nat" where
  "digit_val c = of_char c - of_char CHR ''0''"

definition digit_char :: "nat \<Rightarrow> char" where
  "digit_char d = char_of (of_char CHR ''0'' + d)"

text \<open>The value of a digit string read in base ten, most significant digit first.\<close>

definition decimal_value :: "string \<Rightarrow> nat" where
  "decimal_value ds = foldl (\<lambda>acc c. 10 * acc + digit_val c) 0 ds"

text \<open>The decimal numeral of a natural number and of an integer, as a template literal prints it.\<close>

fun show_digits :: "nat \<Rightarrow> nat \<Rightarrow> string" where
  "show_digits 0 n = []"
| "show_digits (Suc fuel) n =
     (if n < 10 then [digit_char n] else show_digits fuel (n div 10) @ [digit_char (n mod 10)])"

definition show_nat :: "nat \<Rightarrow> string" where
  "show_nat n = show_digits (Suc n) n"

definition show_int :: "int \<Rightarrow> string" where
  "show_int i = (if i < 0 then CHR ''-'' # show_nat (nat (- i)) else show_nat (nat i))"

text \<open>
  \<^verbatim>\<open>x.toFixed(2)\<close>: the integer \<open>n\<close> nearest to \<open>100 * |x|\<close> (the larger one on a tie),
  printed with two decimals.
\<close>

definition toFixed2 :: "rat \<Rightarrow> string" where
  "toFixed2 x =
     (let n = nat (js_round (100 * \<bar>x\<bar>));
          body = show_nat (n div 100) @ ''.'' @ [digit_char (n mod 100 div 10), digit_char (n mod 10)]
      in if x < 0 then CHR ''-'' # body else body)"

subsection \<open>Fee calculator: \<^verbatim>\<open>businessRules.calculateTransactionCharge\<close>\<close>

definition calculateTransactionCharge :: "int \<Rightarrow> int" where
  "calculateTransactionCharge amount =
     (let percentage :: rat =
            (if amount \<le> 500 then 15 / 10
             else if amount \<le> 1000 then 12 / 10
             else if amount \<le> 2000 then 1
             else 8 / 10)
      in js_round (of_int amount * (percentage / 100)))"

subsection \<open>Split calculator: \<^verbatim>\<open>MoneySplitter.calculateSplit\<close>\<close>

text \<open>The two errors \<^verbatim>\<open>calculateSplit\<close> throws, told apart by their messages.\<close>

datatype split_error = ChargeBelowOne | PercentageOutOfRange

definition split_error_message :: "split_error \<Rightarrow> string" where
  "split_error_message e =
     (case e of
        ChargeBelowOne \<Rightarrow> ''Transaction charge must be at least KSh 1''
      | PercentageOutOfRange \<Rightarrow> ''Developer percentage must be between 0 and 100'')"

record split =
  split_transactionCharge :: int
  split_developerShare :: int
  split_ownerShare :: int
  split_developerPercentage :: string
  split_ownerPercentage :: string
  split_splitRatio :: string
  split_isValid :: bool

definition calculateSplit :: "int \<Rightarrow> rat \<Rightarrow> split_error + split" where
  "calculateSplit charge developerPercentage =
     (if charge < 1 then Inl ChargeBelowOne
      else if developerPercentage < 0 \<or> developerPercentage > 100 then Inl PercentageOutOfRange
      else
        let developerShare = js_round (of_int charge * (developerPercentage / 100));
            ownerShare = charge - developerShare;
            finalDeveloperShare =
              (if ownerShare < 1 \<and> charge > 1 then developerShare - 1 else developerShare);
            finalOwnerShare = charge - finalDeveloperShare
        in Inr \<lparr> split_transactionCharge = charge,
                 split_developerShare = finalDeveloperShare,
                 split_ownerShare = finalOwnerShare,
                 split_developerPercentage =
                   toFixed2 (of_int finalDeveloperShare / of_int charge * 100),
                 split_ownerPercentage =
                   toFixed2 (of_int finalOwnerShare / of_int charge * 100),
                 split_splitRatio = show_int finalOwnerShare @ '':'' @ show_int finalDeveloperShare,
                 split_isValid = (finalDeveloperShare \<ge> 0 \<and> finalOwnerShare \<ge> 0) \<rparr>)"

subsection \<open>Binary64 rounding\<close>

text \<open>
  A JavaScript number is a binary64 double. \<open>binary64 x\<close> is the double nearest to the
  rational \<open>x\<close>: 53 significant bits, a tie going to the even significand. The exponent
  range is not bounded here; every value below is far inside it. \<open>binexp x\<close> is the
  binary exponent of a positive \<open>x\<close>, the \<open>e\<close> with \<open>2^e \<le> x < 2^(e+1)\<close>.
\<close>

definition round_even :: "rat \<Rightarrow> int" where
  "round_even x =
     (let n = \<lfloor>x\<rfloor>; r = x - of_int n
      in if r < 1 / 2 then n else if 1 / 2 < r then n + 1 else if even n then n else n + 1)"

definition binexp :: "rat \<Rightarrow> int" where
  "binexp x =
     (if 1 \<le> x then int (floorlog 2 (nat \<lfloor>x\<rfloor>)) - 1
      else - int (floorlog 2 (nat (\<lceil>1 / x\<rceil> - 1))))"

definition binary64 :: "rat \<Rightarrow> rat" where
  "binary64 x =
     (if x = 0 then 0
      else let ulp = 2 powi (binexp \<bar>x\<bar> - 52)
           in sgn x * of_int (round_even (\<bar>x\<bar> / ulp)) * ulp)"

text \<open>
  \<^verbatim>\<open>calculateTransactionCharge\<close> with every literal, quotient and product rounded to
  binary64, as the engine evaluates \<^verbatim>\<open>Math.round(amount * (percentage / 100))\<close>.
\<close>

definition calculateTransactionCharge_binary64 :: "int \<Rightarrow> int" where
  "calculateTransactionCharge_binary64 amount =
     (let percentage =
            (if amount \<le> 500 then binary64 (15 / 10)
             else if amount \<le> 1000 then binary64 (12 / 10)
             else if amount \<le> 2000 then binary64 1
             else binary64 (8 / 10))
      in js_round (binary64 (binary64 (of_int amount) * binary64 (percentage / 100))))"

subsection \<open>Validation and sanitization: \<^verbatim>\<open>utils/validation\<close>\<close>

text \<open>\<^verbatim>\<open>s.startsWith(p)\<close>.\<close>

definition startsWith :: "string \<Rightarrow> string \<Rightarrow> bool" where
  "startsWith s p = (take (length p) s = p)"

text \<open>
  The request body of \<^verbatim>\<open>/api/payment/initiate\<close>. A field is a string or absent; the
  amount may also be a JSON integer (of magnitude below \<open>10^21\<close>, so that its string form
  is its decimal numeral). Other JSON types are outside this model.
\<close>

datatype amount_field = AmountMissing | AmountText string | AmountInt int

record payment_request =
  req_matatu_code :: "string option"
  req_phone_number :: "string option"
  req_amount :: amount_field

text \<open>
  The Joi schemas. \<^verbatim>\<open>matatuCode\<close> is \<^verbatim>\<open>/^\d{1,4}$/\<close>, \<^verbatim>\<open>phoneNumber\<close> is
  \<^verbatim>\<open>/^254[17]\d{8}$/\<close>, \<^verbatim>\<open>amount\<close> is an integer from 50 to 100000.
\<close>

definition matatuCode_pattern :: "string \<Rightarrow> bool" where
  "matatuCode_pattern s = (1 \<le> length s \<and> length s \<le> 4 \<and> list_all is_digit s)"

definition phoneNumber_pattern :: "string \<Rightarrow> bool" where
  "phoneNumber_pattern s =
     (length s = 12 \<and> take 3 s = ''254'' \<and> (s ! 3 = CHR ''1'' \<or> s ! 3 = CHR ''7'')
      \<and> list_all is_digit (drop 4 s))"

definition amount_schema :: "int \<Rightarrow> bool" where
  "amount_schema n = (50 \<le> n \<and> n \<le> 100000)"

text \<open>
  The \<^verbatim>\<open>validate\<close> functions, reduced to their \<^verbatim>\<open>isValid\<close> flag: a required string must
  be present (not \<^verbatim>\<open>null\<close>) and match its pattern, a required number must not be
  \<^verbatim>\<open>NaN\<close> and must satisfy its bounds.
\<close>

definition validateMatatuCode :: "string option \<Rightarrow> bool" where
  "validateMatatuCode code = (case code of None \<Rightarrow> False | Some c \<Rightarrow> matatuCode_pattern c)"

definition validatePhoneNumber :: "string option \<Rightarrow> bool" where
  "validatePhoneNumber phone = (case phone of None \<Rightarrow> False | Some p \<Rightarrow> phoneNumber_pattern p)"

definition validateAmount :: "int option \<Rightarrow> bool" where
  "validateAmount amount = (case amount of None \<Rightarrow> False | Some n \<Rightarrow> amount_schema n)"

text \<open>
  \<^verbatim>\<open>validate.validatePaymentRequest\<close>: the keys are checked in the order of the schema and
  the first failure ends the validation, so \<^verbatim>\<open>errors\<close> names at most one field. The
  message texts of Joi are not modelled.
\<close>

record validation_result =
  vr_isValid :: bool
  vr_errors :: "string list"

definition validatePaymentRequest :: "string option \<Rightarrow> string option \<Rightarrow> int option \<Rightarrow> validation_result" where
  "validatePaymentRequest matatu_code phone_number amount =
     (if \<not> validateMatatuCode matatu_code then \<lparr> vr_isValid = False, vr_errors = [''matatu_code''] \<rparr>
      else if \<not> validatePhoneNumber phone_number then \<lparr> vr_isValid = False, vr_errors = [''phone_number''] \<rparr>
      else if \<not> validateAmount amount then \<lparr> vr_isValid = False, vr_errors = [''amount''] \<rparr>
      else \<lparr> vr_isValid = True, vr_errors = [] \<rparr>)"

text \<open>\<^verbatim>\<open>sanitize.cleanPhoneNumber\<close>: \<^verbatim>\<open>null\<close> for a missing or empty phone.\<close>

definition cleanPhoneNumber :: "string option \<Rightarrow> string option" where
  "cleanPhoneNumber phone =
     (case phone of
        None \<Rightarrow> None
      | Some p \<Rightarrow>
          if p = [] then None
          else
            let cleaned = strip_non_digits p
            in if startsWith cleaned ''0'' then Some (''254'' @ drop 1 cleaned)
               else if startsWith cleaned ''7'' \<or> startsWith cleaned ''1'' then Some (''254'' @ cleaned)
               else Some cleaned)"

text \<open>\<^verbatim>\<open>sanitize.cleanMatatuCode\<close>.\<close>

definition cleanMatatuCode :: "string option \<Rightarrow> string option" where
  "cleanMatatuCode code =
     (case code of
        None \<Rightarrow> None
      | Some c \<Rightarrow> if c = [] then None else Some (strip_non_digits c))"

text \<open>
  \<^verbatim>\<open>parseInt\<close> on a string of decimal digits: \<^verbatim>\<open>NaN\<close> (here \<open>None\<close>) for the empty
  string, otherwise the number the digits denote in base ten.
\<close>

definition parseInt_digits :: "string \<Rightarrow> int option" where
  "parseInt_digits ds = (if ds = [] then None else Some (int (decimal_value ds)))"

text \<open>
  \<^verbatim>\<open>sanitize.cleanAmount\<close>: a string loses its non-digits and is parsed; anything else goes
  to \<^verbatim>\<open>parseInt\<close> as it is (\<^verbatim>\<open>NaN\<close> for a missing amount).
\<close>

definition cleanAmount :: "amount_field \<Rightarrow> int option" where
  "cleanAmount amount =
     (case amount of
        AmountText s \<Rightarrow> parseInt_digits (strip_non_digits s)
      | AmountInt n \<Rightarrow> Some n
      | AmountMissing \<Rightarrow> None)"

text \<open>
  \<^verbatim>\<open>MpesaService.formatPhoneNumber\<close> (the input is a string; \<^verbatim>\<open>!phoneNumber\<close> holds of
  the empty one).
\<close>

definition formatPhoneNumber :: "string \<Rightarrow> string option" where
  "formatPhoneNumber phoneNumber =
     (if phoneNumber = [] then None
      else
        let cleaned = strip_non_digits phoneNumber;
            formatted =
              (if startsWith cleaned ''0'' then Some (''254'' @ drop 1 cleaned)
               else if startsWith cleaned ''7'' \<or> startsWith cleaned ''1'' then Some (''254'' @ cleaned)
               else if \<not> startsWith cleaned ''254'' then None
               else Some cleaned)
        in case formatted of
             None \<Rightarrow> None
           | Some c \<Rightarrow> if length c \<noteq> 12 then None else Some c)"

subsection \<open>M-Pesa client: \<^verbatim>\<open>services/mpesa-service\<close>\<close>

text \<open>
  What an \<^verbatim>\<open>await\<close>ed call does: it returns a value or throws an error object. Of an
  error the code reads \<^verbatim>\<open>message\<close> and \<^verbatim>\<open>response?.data\<close> with its \<^verbatim>\<open>errorMessage\<close> and
  \<^verbatim>\<open>errorCode\<close> (\<open>None\<close> when the error has no response or the response no data).
\<close>

record provider_fault =
  pf_errorMessage :: jsval
  pf_errorCode :: jsval

record js_error =
  err_message :: string
  err_response_data :: "provider_fault option"

datatype 'a outcome = Returns 'a | Throws js_error

text \<open>A \<^verbatim>\<open>TypeError\<close> raised by the runtime, for instance by a property read on \<^verbatim>\<open>undefined\<close>.\<close>

definition type_error :: js_error where
  "type_error = \<lparr> err_message = ''TypeError'', err_response_data = None \<rparr>"

text \<open>\<^verbatim>\<open>try { body } catch (error) { handler }\<close>, the state reached by the body being kept.\<close>

definition try_catch :: "'a outcome \<times> 's \<Rightarrow> (js_error \<Rightarrow> 'a outcome) \<Rightarrow> 'a outcome \<times> 's" where
  "try_catch body handler =
     (case body of
        (Returns v, s) \<Rightarrow> (Returns v, s)
      | (Throws e, s) \<Rightarrow> (handler e, s))"

text \<open>\<^verbatim>\<open>Buffer.from(text).toString('base64')\<close>, kept symbolic.\<close>

datatype encoded = Base64 string

record mpesa_service =
  ms_consumerKey :: string
  ms_consumerSecret :: string
  ms_shortcode :: string
  ms_passkey :: string
  ms_callbackUrl :: string
  ms_baseURL :: string
  ms_accessToken :: jsval
  ms_tokenExpiry :: "nat option"

text \<open>The bodies posted to the provider and the fields read from its answers.\<close>

record stk_push_payload =
  pl_BusinessShortCode :: string
  pl_Password :: encoded
  pl_Timestamp :: string
  pl_TransactionType :: string
  pl_Amount :: int
  pl_PartyA :: string
  pl_PartyB :: string
  pl_PhoneNumber :: string
  pl_CallBackURL :: string
  pl_AccountReference :: string
  pl_TransactionDesc :: string

record stk_query_payload =
  ql_BusinessShortCode :: string
  ql_Password :: encoded
  ql_Timestamp :: string
  ql_CheckoutRequestID :: string

datatype post_payload = StkPushRequest stk_push_payload | StkQueryRequest stk_query_payload

record provider_data =
  pd_MerchantRequestID :: "string option"
  pd_CheckoutRequestID :: "string option"
  pd_ResponseCode :: jsval
  pd_ResponseDescription :: jsval
  pd_CustomerMessage :: jsval
  pd_ResultCode :: jsval
  pd_ResultDesc :: jsval

text \<open>
  The network as one operation sees it: the clock in milliseconds, the formatted
  timestamp, and what \<^verbatim>\<open>axios.get\<close> and \<^verbatim>\<open>axios.post\<close> do. \<^verbatim>\<open>net_get\<close> yields the
  \<^verbatim>\<open>access_token\<close> of the answer, \<^verbatim>\<open>net_post\<close> its data; \<open>None\<close> is an answer without data.
\<close>

record network =
  net_now :: nat
  net_timestamp :: string
  net_get :: "string \<Rightarrow> encoded \<Rightarrow> jsval option outcome"
  net_post :: "string \<Rightarrow> jsval \<Rightarrow> post_payload \<Rightarrow> provider_data option outcome"

definition new_MpesaService ::
  "string \<Rightarrow> string \<Rightarrow> string \<Rightarrow> string \<Rightarrow> string \<Rightarrow> string \<Rightarrow> mpesa_service" where
  "new_MpesaService consumerKey consumerSecret shortcode passkey callbackUrl environment =
     \<lparr> ms_consumerKey = consumerKey, ms_consumerSecret = consumerSecret,
       ms_shortcode = shortcode, ms_passkey = passkey, ms_callbackUrl = callbackUrl,
       ms_baseURL = (if environment = ''production'' then ''https://api.safaricom.co.ke''
                     else ''https://sandbox.safaricom.co.ke''),
       ms_accessToken = JNull, ms_tokenExpiry = None \<rparr>"

definition token_error :: js_error where
  "token_error = \<lparr> err_message = ''Failed to generate M-Pesa access token'', err_response_data = None \<rparr>"

text \<open>
  \<^verbatim>\<open>generateAccessToken\<close>: the cached token while it is valid, otherwise a new one, cached
  for 55 minutes. Every failure inside is rethrown as the one token error.
\<close>

definition generateAccessToken :: "network \<Rightarrow> mpesa_service \<Rightarrow> jsval outcome \<times> mpesa_service" where
  "generateAccessToken net s =
     try_catch
       (if truthy (ms_accessToken s)
           \<and> (case ms_tokenExpiry s of None \<Rightarrow> False | Some expiry \<Rightarrow> net_now net < expiry)
        then (Returns (ms_accessToken s), s)
        else
          case net_get net (ms_baseURL s @ ''/oauth/v1/generate?grant_type=client_credentials'')
                 (Base64 (ms_consumerKey s @ '':'' @ ms_consumerSecret s)) of
            Throws e \<Rightarrow> (Throws e, s)
          | Returns None \<Rightarrow> (Throws type_error, s)
          | Returns (Some token) \<Rightarrow>
              (Returns token,
               s\<lparr> ms_accessToken := token, ms_tokenExpiry := Some (net_now net + 55 * 60000) \<rparr>))
       (\<lambda>error. Throws token_error)"

definition generatePassword :: "network \<Rightarrow> mpesa_service \<Rightarrow> encoded \<times> string" where
  "generatePassword net s =
     (Base64 (ms_shortcode s @ ms_passkey s @ net_timestamp net), net_timestamp net)"

text \<open>The result object of the two gateway operations.\<close>

datatype 'd gateway_result =
    GatewaySuccess 'd
  | GatewayFailure jsval jsval

definition gw_success :: "'d gateway_result \<Rightarrow> bool" where
  "gw_success r = (case r of GatewaySuccess d \<Rightarrow> True | GatewayFailure e c \<Rightarrow> False)"

record stk_push_data =
  sp_merchantRequestId :: "string option"
  sp_checkoutRequestId :: "string option"
  sp_responseCode :: jsval
  sp_responseDescription :: jsval
  sp_customerMessage :: jsval

record stk_query_data =
  sq_merchantRequestId :: "string option"
  sq_checkoutRequestId :: "string option"
  sq_responseCode :: jsval
  sq_responseDescription :: jsval
  sq_resultCode :: jsval
  sq_resultDesc :: jsval

text \<open>
  The \<^verbatim>\<open>catch\<close> block shared by both operations, up to the generic message:
  \<^verbatim>\<open>error.response?.data?.errorMessage || generic\<close> and
  \<^verbatim>\<open>error.response?.data?.errorCode || 'UNKNOWN_ERROR'\<close>.
\<close>

definition failure_of :: "string \<Rightarrow> js_error \<Rightarrow> 'd gateway_result" where
  "failure_of generic error =
     GatewayFailure
       (js_or (case err_response_data error of None \<Rightarrow> JUndefined | Some d \<Rightarrow> pf_errorMessage d)
              (JStr generic))
       (js_or (case err_response_data error of None \<Rightarrow> JUndefined | Some d \<Rightarrow> pf_errorCode d)
              (JStr ''UNKNOWN_ERROR''))"

text \<open>
  \<^verbatim>\<open>stkPush\<close>. The \<^verbatim>\<open>try\<close> block first: token, password, phone (a \<^verbatim>\<open>null\<close> phone raises
  a \<^verbatim>\<open>TypeError\<close> at \<^verbatim>\<open>startsWith\<close>), the request, and the fields of the answer.
\<close>

definition stkPush_try ::
  "network \<Rightarrow> mpesa_service \<Rightarrow> string option \<Rightarrow> int \<Rightarrow> string \<Rightarrow> string
     \<Rightarrow> stk_push_data gateway_result outcome \<times> mpesa_service" where
  "stkPush_try net s phoneNumber totalAmount accountReference transactionDesc =
     (case generateAccessToken net s of
        (Throws e, s') \<Rightarrow> (Throws e, s')
      | (Returns accessToken, s') \<Rightarrow>
          let (password, timestamp) = generatePassword net s'
          in case phoneNumber of
               None \<Rightarrow> (Throws type_error, s')
             | Some phone \<Rightarrow>
                 let cleanPhone = (if startsWith phone ''254'' then phone else ''254'' @ drop 1 phone);
                     requestPayload =
                       \<lparr> pl_BusinessShortCode = ms_shortcode s',
                         pl_Password = password,
                         pl_Timestamp = timestamp,
                         pl_TransactionType = ''CustomerPayBillOnline'',
                         pl_Amount = totalAmount,
                         pl_PartyA = cleanPhone,
                         pl_PartyB = ms_shortcode s',
                         pl_PhoneNumber = cleanPhone,
                         pl_CallBackURL = ms_callbackUrl s',
                         pl_AccountReference = accountReference,
                         pl_TransactionDesc =
                           (if transactionDesc = [] then ''MOBIPAY Payment'' else transactionDesc) \<rparr>
                 in case net_post net (ms_baseURL s' @ ''/mpesa/stkpush/v1/processrequest'')
                           accessToken (StkPushRequest requestPayload) of
                      Throws e \<Rightarrow> (Throws e, s')
                    | Returns None \<Rightarrow> (Throws type_error, s')
                    | Returns (Some d) \<Rightarrow>
                        (Returns (GatewaySuccess
                           \<lparr> sp_merchantRequestId = pd_MerchantRequestID d,
                             sp_checkoutRequestId = pd_CheckoutRequestID d,
                             sp_responseCode = pd_ResponseCode d,
                             sp_responseDescription = pd_ResponseDescription d,
                             sp_customerMessage = pd_CustomerMessage d \<rparr>), s'))"

definition stkPush ::
  "network \<Rightarrow> mpesa_service \<Rightarrow> string option \<Rightarrow> int \<Rightarrow> string \<Rightarrow> string
     \<Rightarrow> stk_push_data gateway_result outcome \<times> mpesa_service" where
  "stkPush net s phoneNumber totalAmount accountReference transactionDesc =
     try_catch (stkPush_try net s phoneNumber totalAmount accountReference transactionDesc)
       (\<lambda>error. Returns (failure_of ''STK Push request failed'' error))"

text \<open>\<^verbatim>\<open>stkPushQuery\<close>, in the same two steps.\<close>

definition stkPushQuery_try ::
  "network \<Rightarrow> mpesa_service \<Rightarrow> string \<Rightarrow> stk_query_data gateway_result outcome \<times> mpesa_service" where
  "stkPushQuery_try net s checkoutRequestId =
     (case generateAccessToken net s of
        (Throws e, s') \<Rightarrow> (Throws e, s')
      | (Returns accessToken, s') \<Rightarrow>
          let (password, timestamp) = generatePassword net s';
              requestPayload =
                \<lparr> ql_BusinessShortCode = ms_shortcode s',
                  ql_Password = password,
                  ql_Timestamp = timestamp,
                  ql_CheckoutRequestID = checkoutRequestId \<rparr>
          in case net_post net (ms_baseURL s' @ ''/mpesa/stkpushquery/v1/query'')
                    accessToken (StkQueryRequest requestPayload) of
               Throws e \<Rightarrow> (Throws e, s')
             | Returns None \<Rightarrow> (Throws type_error, s')
             | Returns (Some d) \<Rightarrow>
                 (Returns (GatewaySuccess
                    \<lparr> sq_merchantRequestId = pd_MerchantRequestID d,
                      sq_checkoutRequestId = pd_CheckoutRequestID d,
                      sq_responseCode = pd_ResponseCode d,
                      sq_responseDescription = pd_ResponseDescription d,
                      sq_resultCode = pd_ResultCode d,
                      sq_resultDesc = pd_ResultDesc d \<rparr>), s'))"

definition stkPushQuery ::
  "network \<Rightarrow> mpesa_service \<Rightarrow> string \<Rightarrow> stk_query_data gateway_result outcome \<times> mpesa_service" where
  "stkPushQuery net s checkoutRequestId =
     try_catch (stkPushQuery_try net s checkoutRequestId)
       (\<lambda>error. Returns (failure_of ''STK Push query failed'' error))"

subsection \<open>The ledger: the tables of \<^verbatim>\<open>database/init-database\<close>\<close>

datatype txn_status = PENDING | COMPLETED | FAILED

text \<open>A row of \<^verbatim>\<open>transactions\<close>; a nullable text column is a \<open>string option\<close>.\<close>

record txn =
  transaction_id :: string
  matatu_code :: string
  phone_number :: string
  amount :: int
  transaction_charge :: int
  total_amount :: int
  mpesa_receipt_number :: "string option"
  status :: txn_status
  mpesa_request_id :: "string option"
  checkout_request_id :: "string option"
  owner_share :: int
  developer_share :: int
  created_at :: nat
  updated_at :: nat

record matatu =
  m_matatu_code :: string
  m_route_name :: string
  m_owner_account :: string
  m_is_active :: bool

record account =
  a_account_number :: string
  a_account_type :: string
  a_account_name :: string
  a_is_active :: bool

text \<open>
  The database. Rows are kept in insertion order. Of \<^verbatim>\<open>system_settings\<close> the two values
  the code reads are kept as \<^verbatim>\<open>parseFloat\<close> and \<^verbatim>\<open>parseInt\<close> see them: \<open>None\<close> for a
  missing row or a text that parses to \<^verbatim>\<open>NaN\<close>.
\<close>

record database =
  transactions :: "txn list"
  matatus :: "matatu list"
  accounts :: "account list"
  developer_percentage :: "rat option"
  min_amount :: "int option"

text \<open>
  The calls that reach the database, one name for each call site, and the server's
  surroundings: which of these calls fail with an error, the message of such an error, the
  value of \<^verbatim>\<open>CURRENT_TIMESTAMP\<close>, and the identifier the next payment is given
  (\<^verbatim>\<open>MOBI\<close>, the time and a random suffix).
\<close>

datatype db_op =
    FindActiveMatatu | ReadSettings | ReadOwnerAccount | ReadDeveloperAccount
  | InsertTransaction | UpdateSplit
  | ReadTransaction | UpdateStatus
  | FindByCheckout | UpdateCallback

record server_env =
  db_fails :: "db_op \<Rightarrow> bool"
  db_error_message :: string
  current_timestamp :: nat
  new_transaction_id :: string

text \<open>A line written to the console: the method and its first argument.\<close>

datatype log_entry = ConsoleLog string | ConsoleError string

text \<open>\<^verbatim>\<open>UPDATE ... WHERE\<close>: every row that satisfies the condition is changed.\<close>

definition update_where :: "('r \<Rightarrow> bool) \<Rightarrow> ('r \<Rightarrow> 'r) \<Rightarrow> 'r list \<Rightarrow> 'r list" where
  "update_where cond change rows = map (\<lambda>r. if cond r then change r else r) rows"

text \<open>\<^verbatim>\<open>x || null\<close> on a text that is bound to a statement.\<close>

definition or_null :: "string option \<Rightarrow> string option" where
  "or_null x = (case x of None \<Rightarrow> None | Some s \<Rightarrow> if s = [] then None else Some s)"

text \<open>\<^verbatim>\<open>column = ?\<close> with a text parameter: never true of \<^verbatim>\<open>NULL\<close> on either side.\<close>

definition sql_eq :: "string option \<Rightarrow> string option \<Rightarrow> bool" where
  "sql_eq column param = (case (column, param) of (Some c, Some p) \<Rightarrow> c = p | _ \<Rightarrow> False)"

subsection \<open>Callback payload: \<^verbatim>\<open>validateCallback\<close> and \<^verbatim>\<open>processCallback\<close>\<close>

text \<open>
  The envelope \<^verbatim>\<open>Body.stkCallback\<close>. The identifiers and the description are strings or
  absent, the result code is any JSON value. \<^verbatim>\<open>CallbackMetadata\<close> is absent (\<open>None\<close>),
  present without an \<^verbatim>\<open>Item\<close> array (\<open>Some None\<close>) or present with its items; the value
  of an item is a text, a number or absent.
\<close>

datatype item_value = NoValue | TextValue string | NumberValue int

record callback_item =
  ci_Name :: string
  ci_Value :: item_value

record stk_callback =
  cb_MerchantRequestID :: "string option"
  cb_CheckoutRequestID :: "string option"
  cb_ResultCode :: jsval
  cb_ResultDesc :: "string option"
  cb_CallbackMetadata :: "callback_item list option option"

definition str_field :: "string option \<Rightarrow> jsval" where
  "str_field x = (case x of None \<Rightarrow> JUndefined | Some s \<Rightarrow> JStr s)"

text \<open>\<^verbatim>\<open>!stkCallback[field] && stkCallback[field] !== 0\<close>.\<close>

definition field_missing :: "jsval \<Rightarrow> bool" where
  "field_missing v = (\<not> truthy v \<and> v \<noteq> JNum 0)"

record callback_validation =
  cv_isValid :: bool
  cv_error :: "string option"

text \<open>
  \<^verbatim>\<open>validateCallback\<close>; \<open>None\<close> is a body without \<^verbatim>\<open>Body\<close> or without
  \<^verbatim>\<open>Body.stkCallback\<close>.
\<close>

definition validateCallback :: "stk_callback option \<Rightarrow> callback_validation" where
  "validateCallback callbackData =
     (case callbackData of
        None \<Rightarrow> \<lparr> cv_isValid = False, cv_error = Some ''Invalid callback structure'' \<rparr>
      | Some stkCallback \<Rightarrow>
          (case find (\<lambda>(field, v). field_missing v)
                  [(''MerchantRequestID'', str_field (cb_MerchantRequestID stkCallback)),
                   (''CheckoutRequestID'', str_field (cb_CheckoutRequestID stkCallback)),
                   (''ResultCode'', cb_ResultCode stkCallback),
                   (''ResultDesc'', str_field (cb_ResultDesc stkCallback))] of
             Some (field, v) \<Rightarrow>
               \<lparr> cv_isValid = False, cv_error = Some (''Missing required field: '' @ field) \<rparr>
           | None \<Rightarrow> \<lparr> cv_isValid = True, cv_error = None \<rparr>))"

record callback_result =
  cr_merchantRequestId :: "string option"
  cr_checkoutRequestId :: "string option"
  cr_resultCode :: jsval
  cr_resultDesc :: "string option"
  cr_success :: bool
  cr_error :: "string option"
  cr_amount :: item_value
  cr_mpesaReceiptNumber :: item_value
  cr_transactionDate :: item_value
  cr_phoneNumber :: item_value
  cr_balance :: item_value

text \<open>\<^verbatim>\<open>metadata.find(item => item.Name === name)?.Value\<close>.\<close>

definition metadata_value :: "callback_item list \<Rightarrow> string \<Rightarrow> item_value" where
  "metadata_value metadata name =
     (case find (\<lambda>item. ci_Name item = name) metadata of
        None \<Rightarrow> NoValue
      | Some item \<Rightarrow> ci_Value item)"

definition invalid_callback_format :: callback_result where
  "invalid_callback_format =
     \<lparr> cr_merchantRequestId = None, cr_checkoutRequestId = None, cr_resultCode = JUndefined,
       cr_resultDesc = None, cr_success = False, cr_error = Some ''Invalid callback data format'',
       cr_amount = NoValue, cr_mpesaReceiptNumber = NoValue, cr_transactionDate = NoValue,
       cr_phoneNumber = NoValue, cr_balance = NoValue \<rparr>"

text \<open>
  \<^verbatim>\<open>processCallback\<close>, with the lines it writes to the console. Its \<^verbatim>\<open>catch\<close> block is
  reached when the envelope is missing and when a successful callback has metadata
  without items.
\<close>

definition processCallback :: "stk_callback option \<Rightarrow> callback_result \<times> log_entry list" where
  "processCallback callbackData =
     (case callbackData of
        None \<Rightarrow> (invalid_callback_format, [ConsoleError ''Error processing callback:''])
      | Some stkCallback \<Rightarrow>
          let result =
                \<lparr> cr_merchantRequestId = cb_MerchantRequestID stkCallback,
                  cr_checkoutRequestId = cb_CheckoutRequestID stkCallback,
                  cr_resultCode = cb_ResultCode stkCallback,
                  cr_resultDesc = cb_ResultDesc stkCallback,
                  cr_success = (cb_ResultCode stkCallback = JNum 0),
                  cr_error = None,
                  cr_amount = NoValue, cr_mpesaReceiptNumber = NoValue,
                  cr_transactionDate = NoValue, cr_phoneNumber = NoValue, cr_balance = NoValue \<rparr>
          in if cr_success result then
               (case cb_CallbackMetadata stkCallback of
                  None \<Rightarrow> (result, [])
                | Some None \<Rightarrow> (invalid_callback_format, [ConsoleError ''Error processing callback:''])
                | Some (Some metadata) \<Rightarrow>
                    (result\<lparr> cr_amount := metadata_value metadata ''Amount'',
                             cr_mpesaReceiptNumber := metadata_value metadata ''MpesaReceiptNumber'',
                             cr_transactionDate := metadata_value metadata ''TransactionDate'',
                             cr_phoneNumber := metadata_value metadata ''PhoneNumber'',
                             cr_balance := metadata_value metadata ''Balance'' \<rparr>, []))
             else (result, []))"

text \<open>
  A metadata value bound to a statement for a text column: an absent value binds
  \<^verbatim>\<open>NULL\<close>, a number is stored as its decimal text.
\<close>

definition sql_text :: "item_value \<Rightarrow> string option" where
  "sql_text v =
     (case v of NoValue \<Rightarrow> None | TextValue s \<Rightarrow> Some s | NumberValue n \<Rightarrow> Some (show_int n))"

subsection \<open>Settlement routes of \<^verbatim>\<open>server2.js\<close>\<close>

text \<open>
  A response is its HTTP status and its body. The body of the callback route is
  \<^verbatim>\<open>{ error }\<close> or \<^verbatim>\<open>{ success: true, message: 'Callback processed successfully' }\<close>.
\<close>

datatype callback_body = CallbackError "string option" | CallbackProcessed

definition status_text :: "txn_status \<Rightarrow> string" where
  "status_text s = (case s of PENDING \<Rightarrow> ''PENDING'' | COMPLETED \<Rightarrow> ''COMPLETED'' | FAILED \<Rightarrow> ''FAILED'')"

text \<open>
  \<^verbatim>\<open>POST /api/mpesa/callback\<close>: the database after the request, the response and the
  console lines. (The outer \<^verbatim>\<open>catch\<close> of the route is not reached: the two functions it
  calls catch their own errors.)
\<close>

definition handleCallback ::
  "server_env \<Rightarrow> database \<Rightarrow> stk_callback option
     \<Rightarrow> database \<times> (nat \<times> callback_body) \<times> log_entry list" where
  "handleCallback env db body =
     (let received = [ConsoleLog ''M-Pesa Callback received:''];
          validation = validateCallback body
      in if \<not> cv_isValid validation then
           (db, (400, CallbackError (cv_error validation)),
            received @ [ConsoleError ''Invalid callback:''])
         else
           let (callbackResult, processed) = processCallback body
           in if db_fails env FindByCheckout then
                (db, (500, CallbackError (Some ''Database error'')),
                 received @ processed @ [ConsoleError ''Database error in callback:''])
              else
                case find (\<lambda>t. sql_eq (checkout_request_id t) (cr_checkoutRequestId callbackResult))
                       (transactions db) of
                  None \<Rightarrow>
                    (db, (404, CallbackError (Some ''Transaction not found'')),
                     received @ processed @ [ConsoleError ''Transaction not found for checkout ID:''])
                | Some row \<Rightarrow>
                    let newStatus = (if cr_success callbackResult then COMPLETED else FAILED)
                    in if db_fails env UpdateCallback then
                         (db, (500, CallbackError (Some ''Update failed'')),
                          received @ processed @ [ConsoleError ''Transaction update error:''])
                       else
                         (db\<lparr> transactions :=
                               update_where (\<lambda>t. transaction_id t = transaction_id row)
                                 (\<lambda>t. t\<lparr> status := newStatus,
                                         mpesa_receipt_number :=
                                           sql_text (cr_mpesaReceiptNumber callbackResult),
                                         updated_at := current_timestamp env \<rparr>)
                                 (transactions db) \<rparr>,
                          (200, CallbackProcessed),
                          received @ processed
                            @ [ConsoleLog (''Transaction '' @ transaction_id row @ '' updated to ''
                                            @ status_text newStatus)]))"

text \<open>The body of the status route: \<^verbatim>\<open>{ success: false, error }\<close> or the transaction.\<close>

record status_data =
  sd_transactionId :: string
  sd_matatuCode :: string
  sd_route :: "string option"
  sd_phoneNumber :: string
  sd_amount :: int
  sd_transactionCharge :: int
  sd_totalAmount :: int
  sd_status :: txn_status
  sd_mpesaReceiptNumber :: "string option"
  sd_ownerShare :: int
  sd_developerShare :: int
  sd_createdAt :: nat
  sd_updatedAt :: nat

datatype status_body = StatusError string | StatusData status_data

text \<open>The row as the \<^verbatim>\<open>LEFT JOIN\<close> with \<^verbatim>\<open>matatus\<close> returns it, put into the response.\<close>

definition status_response :: "database \<Rightarrow> txn \<Rightarrow> nat \<times> status_body" where
  "status_response db t =
     (200, StatusData
        \<lparr> sd_transactionId = transaction_id t,
          sd_matatuCode = matatu_code t,
          sd_route = map_option m_route_name (find (\<lambda>m. m_matatu_code m = matatu_code t) (matatus db)),
          sd_phoneNumber = phone_number t,
          sd_amount = amount t,
          sd_transactionCharge = transaction_charge t,
          sd_totalAmount = total_amount t,
          sd_status = status t,
          sd_mpesaReceiptNumber = mpesa_receipt_number t,
          sd_ownerShare = owner_share t,
          sd_developerShare = developer_share t,
          sd_createdAt = created_at t,
          sd_updatedAt = updated_at t \<rparr>)"

text \<open>
  What the status route leaves behind: the database, the client with its token cache, the
  response (\<open>None\<close> if the request is never answered), the console lines, and the checkout
  identifiers for which \<^verbatim>\<open>stkPushQuery\<close> was called.
\<close>

record status_handled =
  st_db :: database
  st_service :: mpesa_service
  st_response :: "(nat \<times> status_body) option"
  st_log :: "log_entry list"
  st_queried :: "string list"

text \<open>
  \<^verbatim>\<open>GET /api/payment/status/:transactionId\<close>. The status in the response is set whether
  or not the \<^verbatim>\<open>UPDATE\<close> succeeds; a failed \<^verbatim>\<open>UPDATE\<close> is only logged.
\<close>

definition getStatus ::
  "server_env \<Rightarrow> network \<Rightarrow> mpesa_service \<Rightarrow> database \<Rightarrow> string \<Rightarrow> status_handled" where
  "getStatus env net svc db transactionId =
     (if db_fails env ReadTransaction then
        \<lparr> st_db = db, st_service = svc, st_response = Some (500, StatusError ''Database error''),
          st_log = [ConsoleError ''Database error:''], st_queried = [] \<rparr>
      else
        case find (\<lambda>t. transaction_id t = transactionId) (transactions db) of
          None \<Rightarrow>
            \<lparr> st_db = db, st_service = svc,
              st_response = Some (404, StatusError ''Transaction not found''),
              st_log = [], st_queried = [] \<rparr>
        | Some transaction \<Rightarrow>
            (case (if status transaction = PENDING then or_null (checkout_request_id transaction)
                   else None) of
               None \<Rightarrow>
                 \<lparr> st_db = db, st_service = svc,
                   st_response = Some (status_response db transaction),
                   st_log = [], st_queried = [] \<rparr>
             | Some checkoutId \<Rightarrow>
                 (case stkPushQuery net svc checkoutId of
                    (Throws e, svc') \<Rightarrow>
                      \<lparr> st_db = db, st_service = svc', st_response = None,
                        st_log = [], st_queried = [checkoutId] \<rparr>
                  | (Returns (GatewayFailure msg code), svc') \<Rightarrow>
                      \<lparr> st_db = db, st_service = svc',
                        st_response = Some (status_response db transaction),
                        st_log = [], st_queried = [checkoutId] \<rparr>
                  | (Returns (GatewaySuccess d), svc') \<Rightarrow>
                      if sq_resultCode d \<noteq> JUndefined then
                        let newStatus = (if sq_resultCode d = JNum 0 then COMPLETED else FAILED)
                        in \<lparr> st_db =
                               (if db_fails env UpdateStatus then db
                                else db\<lparr> transactions :=
                                       update_where (\<lambda>t. transaction_id t = transactionId)
                                         (\<lambda>t. t\<lparr> status := newStatus,
                                                 updated_at := current_timestamp env \<rparr>)
                                         (transactions db) \<rparr>),
                             st_service = svc',
                             st_response = Some (status_response db (transaction\<lparr> status := newStatus \<rparr>)),
                             st_log = (if db_fails env UpdateStatus
                                       then [ConsoleError ''Status update error:''] else []),
                             st_queried = [checkoutId] \<rparr>
                      else
                        \<lparr> st_db = db, st_service = svc',
                          st_response = Some (status_response db transaction),
                          st_log = [], st_queried = [checkoutId] \<rparr>)))"

subsection \<open>Split execution: \<^verbatim>\<open>MoneySplitter.executeSplit\<close>\<close>

record settings =
  set_developerPercentage :: rat
  set_minAmount :: int

text \<open>\<^verbatim>\<open>parseFloat(...) || 10\<close> and \<^verbatim>\<open>parseInt(...) || 50\<close>: zero and \<^verbatim>\<open>NaN\<close> give the default.\<close>

definition getSystemSettings :: "database \<Rightarrow> settings" where
  "getSystemSettings db =
     \<lparr> set_developerPercentage =
         (case developer_percentage db of None \<Rightarrow> 10 | Some p \<Rightarrow> if p = 0 then 10 else p),
       set_minAmount =
         (case min_amount db of None \<Rightarrow> 50 | Some n \<Rightarrow> if n = 0 then 50 else n) \<rparr>"

text \<open>The active matatu joined with its active owner account; the active developer account.\<close>

definition getMatatuOwnerAccount :: "database \<Rightarrow> string \<Rightarrow> account option" where
  "getMatatuOwnerAccount db matatuCode =
     map_option snd
       (find (\<lambda>(m, a). m_owner_account m = a_account_number a \<and> m_matatu_code m = matatuCode
                        \<and> m_is_active m \<and> a_is_active a)
          (List.product (matatus db) (accounts db)))"

definition getDeveloperAccount :: "database \<Rightarrow> account option" where
  "getDeveloperAccount db =
     find (\<lambda>a. a_account_type a = ''DEVELOPER'' \<and> a_is_active a) (accounts db)"

record split_execution =
  se_matatuCode :: string
  se_fareAmount :: int
  se_transactionCharge :: int
  se_totalAmount :: int
  se_splitCalculation :: split
  se_owner_accountNumber :: string
  se_owner_accountName :: string
  se_owner_shareAmount :: int
  se_owner_percentage :: string
  se_developer_accountNumber :: string
  se_developer_accountName :: string
  se_developer_shareAmount :: int
  se_developer_percentage :: string

text \<open>
  \<^verbatim>\<open>executeSplit\<close>: \<open>Inl\<close> is \<^verbatim>\<open>{ success: false, error }\<close> with the message of whatever
  was thrown, \<open>Inr\<close> is \<^verbatim>\<open>{ success: true, data }\<close> (without the summary and the time, which
  repeat other fields). The owner account is looked up before the developer account.
\<close>

definition executeSplit ::
  "server_env \<Rightarrow> database \<Rightarrow> string \<Rightarrow> int \<Rightarrow> int \<Rightarrow> string + split_execution" where
  "executeSplit env db matatuCode fareAmount charge =
     (if db_fails env ReadSettings then Inl (db_error_message env)
      else
        let settings = getSystemSettings db
        in if db_fails env ReadOwnerAccount then Inl (db_error_message env)
           else case getMatatuOwnerAccount db matatuCode of
             None \<Rightarrow> Inl ''Matatu owner account not found or inactive''
           | Some ownerAccount \<Rightarrow>
               if db_fails env ReadDeveloperAccount then Inl (db_error_message env)
               else case getDeveloperAccount db of
                 None \<Rightarrow> Inl ''Developer account not found or inactive''
               | Some developerAccount \<Rightarrow>
                   (case calculateSplit charge (set_developerPercentage settings) of
                      Inl e \<Rightarrow> Inl (split_error_message e)
                    | Inr splitCalculation \<Rightarrow>
                        Inr \<lparr> se_matatuCode = matatuCode,
                              se_fareAmount = fareAmount,
                              se_transactionCharge = charge,
                              se_totalAmount = fareAmount + charge,
                              se_splitCalculation = splitCalculation,
                              se_owner_accountNumber = a_account_number ownerAccount,
                              se_owner_accountName = a_account_name ownerAccount,
                              se_owner_shareAmount = split_ownerShare splitCalculation,
                              se_owner_percentage = split_ownerPercentage splitCalculation,
                              se_developer_accountNumber = a_account_number developerAccount,
                              se_developer_accountName = a_account_name developerAccount,
                              se_developer_shareAmount = split_developerShare splitCalculation,
                              se_developer_percentage = split_developerPercentage splitCalculation \<rparr>))"

subsection \<open>Payment route of \<^verbatim>\<open>server2.js\<close>\<close>

record initiate_data =
  in_transactionId :: string
  in_amount :: int
  in_transactionCharge :: int
  in_totalAmount :: int
  in_phoneNumber :: string
  in_matatuCode :: string
  in_checkoutRequestId :: "string option"
  in_customerMessage :: jsval
  in_ownerShare :: int
  in_developerShare :: int

text \<open>
  The body of the payment route: \<^verbatim>\<open>{ success: false, errors }\<close>,
  \<^verbatim>\<open>{ success: false, error, details? }\<close> or \<^verbatim>\<open>{ success: true, message, data }\<close>.
\<close>

datatype initiate_body =
    InvalidRequest "string list"
  | InitiateError string "jsval option"
  | PaymentInitiated initiate_data

record initiate_handled =
  ih_db :: database
  ih_service :: mpesa_service
  ih_response :: "nat \<times> initiate_body"
  ih_log :: "log_entry list"

text \<open>The 500 answer of the route's \<^verbatim>\<open>catch\<close> block.\<close>

definition internal_server_error :: "database \<Rightarrow> mpesa_service \<Rightarrow> initiate_handled" where
  "internal_server_error db svc =
     \<lparr> ih_db = db, ih_service = svc,
       ih_response = (500, InitiateError ''Internal server error'' None),
       ih_log = [ConsoleError ''Payment initiation error:''] \<rparr>"

text \<open>
  \<^verbatim>\<open>logTransaction\<close>: the \<^verbatim>\<open>INSERT\<close> fails when the database does or when the
  \<^verbatim>\<open>UNIQUE\<close> identifier is already there.
\<close>

definition logTransaction :: "server_env \<Rightarrow> database \<Rightarrow> txn \<Rightarrow> database option" where
  "logTransaction env db row =
     (if db_fails env InsertTransaction
         \<or> transaction_id row \<in> set (map transaction_id (transactions db))
      then None
      else Some (db\<lparr> transactions := transactions db @ [row] \<rparr>))"

definition logSplitExecution :: "server_env \<Rightarrow> database \<Rightarrow> string \<Rightarrow> split_execution \<Rightarrow> database option" where
  "logSplitExecution env db transactionId splitData =
     (if db_fails env UpdateSplit then None
      else Some (db\<lparr> transactions :=
                    update_where (\<lambda>t. transaction_id t = transactionId)
                      (\<lambda>t. t\<lparr> owner_share := se_owner_shareAmount splitData,
                              developer_share := se_developer_shareAmount splitData,
                              updated_at := current_timestamp env \<rparr>)
                      (transactions db) \<rparr>))"

text \<open>
  \<^verbatim>\<open>POST /api/payment/initiate\<close>. After a successful validation the three cleaned values
  are present; the branch for a missing one is never taken.
\<close>

definition initiatePayment ::
  "server_env \<Rightarrow> network \<Rightarrow> mpesa_service \<Rightarrow> database \<Rightarrow> payment_request \<Rightarrow> initiate_handled" where
  "initiatePayment env net svc db req =
     (let cleanedMatatuCode = cleanMatatuCode (req_matatu_code req);
          cleanedPhoneNumber = cleanPhoneNumber (req_phone_number req);
          cleanedAmount = cleanAmount (req_amount req);
          validation = validatePaymentRequest cleanedMatatuCode cleanedPhoneNumber cleanedAmount
      in if \<not> vr_isValid validation then
           \<lparr> ih_db = db, ih_service = svc,
             ih_response = (400, InvalidRequest (vr_errors validation)), ih_log = [] \<rparr>
         else
           case (cleanedMatatuCode, cleanedPhoneNumber, cleanedAmount) of
             (Some code, Some phone, Some fare) \<Rightarrow>
               if db_fails env FindActiveMatatu then internal_server_error db svc
               else if find (\<lambda>m. m_matatu_code m = code \<and> m_is_active m) (matatus db) = None then
                 \<lparr> ih_db = db, ih_service = svc,
                   ih_response = (400, InitiateError ''Invalid matatu code or matatu is not active'' None),
                   ih_log = [] \<rparr>
               else
                 let charge = calculateTransactionCharge fare;
                     totalAmount = fare + charge
                 in (case executeSplit env db code fare charge of
                       Inl error \<Rightarrow>
                         \<lparr> ih_db = db, ih_service = svc,
                           ih_response = (500, InitiateError error None), ih_log = [] \<rparr>
                     | Inr splitData \<Rightarrow>
                         let transactionId = new_transaction_id env
                         in (case stkPush net svc (Some phone) totalAmount transactionId
                                    (''MOBIPAY Payment - Matatu '' @ code) of
                               (Throws e, svc') \<Rightarrow> internal_server_error db svc'
                             | (Returns (GatewayFailure msg errorCode), svc') \<Rightarrow>
                                 \<lparr> ih_db = db, ih_service = svc',
                                   ih_response = (500, InitiateError ''Failed to initiate payment'' (Some msg)),
                                   ih_log = [] \<rparr>
                             | (Returns (GatewaySuccess pushed), svc') \<Rightarrow>
                                 let transactionData =
                                       \<lparr> transaction_id = transactionId,
                                         matatu_code = code,
                                         phone_number = phone,
                                         amount = fare,
                                         transaction_charge = charge,
                                         total_amount = totalAmount,
                                         mpesa_receipt_number = None,
                                         status = PENDING,
                                         mpesa_request_id = or_null (sp_merchantRequestId pushed),
                                         checkout_request_id = or_null (sp_checkoutRequestId pushed),
                                         owner_share = se_owner_shareAmount splitData,
                                         developer_share = se_developer_shareAmount splitData,
                                         created_at = current_timestamp env,
                                         updated_at = current_timestamp env \<rparr>
                                 in (case logTransaction env db transactionData of
                                       None \<Rightarrow> internal_server_error db svc'
                                     | Some db1 \<Rightarrow>
                                         (case logSplitExecution env db1 transactionId splitData of
                                            None \<Rightarrow> internal_server_error db1 svc'
                                          | Some db2 \<Rightarrow>
                                              \<lparr> ih_db = db2, ih_service = svc',
                                                ih_response =
                                                  (200, PaymentInitiated
                                                     \<lparr> in_transactionId = transactionId,
                                                       in_amount = fare,
                                                       in_transactionCharge = charge,
                                                       in_totalAmount = totalAmount,
                                                       in_phoneNumber = phone,
                                                       in_matatuCode = code,
                                                       in_checkoutRequestId = sp_checkoutRequestId pushed,
                                                       in_customerMessage = sp_customerMessage pushed,
                                                       in_ownerShare = se_owner_shareAmount splitData,
                                                       in_developerShare = se_developer_shareAmount splitData \<rparr>),
                                                ih_log = [] \<rparr>))))
           | _ \<Rightarrow> internal_server_error db svc)"

subsection \<open>What the specification says about rounding and tiers\<close>

text \<open>
  \<open>n\<close> is \<open>x\<close> rounded to the nearest integer with halves rounded up exactly when
  \<open>n - 1/2 \<le> x < n + 1/2\<close>.
\<close>

definition is_round_half_up :: "rat \<Rightarrow> int \<Rightarrow> bool" where
  "is_round_half_up x n = (of_int n - 1 / 2 \<le> x \<and> x < of_int n + 1 / 2)"

text \<open>The tier table of the specification: the rate, as a fraction, for a fare amount.\<close>

definition tier_rate :: "int \<Rightarrow> rat" where
  "tier_rate fareAmount =
     (if fareAmount \<le> 500 then 15 / 1000
      else if fareAmount \<le> 1000 then 12 / 1000
      else if fareAmount \<le> 2000 then 10 / 1000
      else 8 / 1000)"

text \<open>
  The success acknowledgment of the callback route: status 200 with
  \<^verbatim>\<open>{ success: true, message: 'Callback processed successfully' }\<close>.
\<close>

definition acknowledges_receipt :: "nat \<times> callback_body \<Rightarrow> bool" where
  "acknowledges_receipt response = (fst response = 200 \<and> snd response = CallbackProcessed)"

text \<open>
  Two rows that differ at most in status, receipt and update time: identifiers, amounts,
  charge and shares are the same.
\<close>

definition same_but_settlement :: "txn \<Rightarrow> txn \<Rightarrow> bool" where
  "same_but_settlement t t' =
     (t'\<lparr> status := status t, mpesa_receipt_number := mpesa_receipt_number t,
          updated_at := updated_at t \<rparr> = t)"

subsection \<open>Sample data\<close>

text \<open>
  The rows \<^verbatim>\<open>init-database\<close> inserts, a server without database faults, a sandbox
  client, a provider that accepts every request and one that rejects every request with
  its own message.
\<close>

definition seeded_database :: database where
  "seeded_database =
     \<lparr> transactions = [],
       matatus = [\<lparr> m_matatu_code = ''3025'', m_route_name = ''Default Route'',
                    m_owner_account = ''254717564238'', m_is_active = True \<rparr>],
       accounts = [\<lparr> a_account_number = ''254717564238'', a_account_type = ''OWNER'',
                     a_account_name = ''Matatu Owner Account'', a_is_active = True \<rparr>,
                   \<lparr> a_account_number = ''254112331196'', a_account_type = ''DEVELOPER'',
                     a_account_name = ''Developer Account'', a_is_active = True \<rparr>],
       developer_percentage = Some 10,
       min_amount = Some 50 \<rparr>"

definition sound_server :: server_env where
  "sound_server =
     \<lparr> db_fails = (\<lambda>call. False), db_error_message = ''SQLITE_ERROR'',
       current_timestamp = 1700, new_transaction_id = ''MOBI1703012345ABCDE'' \<rparr>"

definition sandbox_service :: mpesa_service where
  "sandbox_service = new_MpesaService ''key'' ''secret'' ''174379'' ''passkey'' ''https://pay.test/cb'' ''sandbox''"

definition accepted :: provider_data where
  "accepted =
     \<lparr> pd_MerchantRequestID = Some ''29115-1'', pd_CheckoutRequestID = Some ''ws_CO_1'',
       pd_ResponseCode = JStr ''0'', pd_ResponseDescription = JStr ''Accepted'',
       pd_CustomerMessage = JStr ''Check your phone'', pd_ResultCode = JUndefined,
       pd_ResultDesc = JUndefined \<rparr>"


definition rejecting_network :: network where
  "rejecting_network =
     \<lparr> net_now = 0, net_timestamp = ''20240101100000'',
       net_get = (\<lambda>url credentials. Returns (Some (JStr ''token''))),
       net_post = (\<lambda>url token payload.
          Throws \<lparr> err_message = ''Request failed with status code 400'',
                   err_response_data =
                     Some \<lparr> pf_errorMessage = JStr ''Invalid PhoneNumber'',
                            pf_errorCode = JStr ''400.002.02'' \<rparr> \<rparr>) \<rparr>"

text \<open>A provider whose query reports the given result code.\<close>

definition reporting_network :: "jsval \<Rightarrow> network" where
  "reporting_network resultCode =
     \<lparr> net_now = 0, net_timestamp = ''20240101100000'',
       net_get = (\<lambda>url credentials. Returns (Some (JStr ''token''))),
       net_post = (\<lambda>url token payload. Returns (Some (accepted\<lparr> pd_ResultCode := resultCode \<rparr>))) \<rparr>"

text \<open>A stored payment of 100 with charge 2, in the given status and with the given receipt.\<close>

definition stored_payment :: "txn_status \<Rightarrow> string option \<Rightarrow> txn" where
  "stored_payment st receipt =
     \<lparr> transaction_id = ''MOBI1'', matatu_code = ''3025'', phone_number = ''254712345678'',
       amount = 100, transaction_charge = 2, total_amount = 102,
       mpesa_receipt_number = receipt, status = st,
       mpesa_request_id = Some ''29115-1'', checkout_request_id = Some ''ws_CO_1'',
       owner_share = 2, developer_share = 0, created_at = 1600, updated_at = 1600 \<rparr>"

text \<open>A callback for that payment with the given result code and no metadata.\<close>

definition callback_for :: "string \<Rightarrow> jsval \<Rightarrow> stk_callback" where
  "callback_for checkoutId resultCode =
     \<lparr> cb_MerchantRequestID = Some ''29115-1'', cb_CheckoutRequestID = Some checkoutId,
       cb_ResultCode = resultCode, cb_ResultDesc = Some ''The service request is processed'',
       cb_CallbackMetadata = None \<rparr>"

text \<open>A ledger whose one payment is completed and has its receipt.\<close>

definition settled_database :: database where
  "settled_database = seeded_database\<lparr> transactions := [stored_payment COMPLETED (Some ''OKL1A2B3C4'')] \<rparr>"

text \<open>A ledger whose one payment is pending.\<close>

definition pending_database :: database where
  "pending_database = seeded_database\<lparr> transactions := [stored_payment PENDING None] \<rparr>"

text \<open>What \<^verbatim>\<open>stkPushQuery\<close> returns from the reporting provider.\<close>

definition reported :: "jsval \<Rightarrow> stk_query_data" where
  "reported resultCode =
     \<lparr> sq_merchantRequestId = Some ''29115-1'', sq_checkoutRequestId = Some ''ws_CO_1'',
       sq_responseCode = JStr ''0'', sq_responseDescription = JStr ''Accepted'',
       sq_resultCode = resultCode, sq_resultDesc = JUndefined \<rparr>"


section \<open>Properties\<close>

subsection \<open>Rounding\<close>

lemma js_round_is_round_half_up: "is_round_half_up x (js_round x)"
proof -
  define n where "n = \<lfloor>x + 1 / 2\<rfloor>"
  have "of_int n \<le> x + 1 / 2" and "x + 1 / 2 < of_int n + 1"
    unfolding n_def by linarith+
  then have "of_int n - 1 / 2 \<le> x \<and> x < of_int n + 1 / 2" by linarith
  then show ?thesis by (simp add: is_round_half_up_def js_round_def n_def)
qed

lemma is_round_half_up_unique:
  assumes "is_round_half_up x n" and "is_round_half_up x m"
  shows "n = m"
proof -
  from assms have "of_int n - 1 / 2 < (of_int m + 1 / 2 :: rat)"
    and "of_int m - 1 / 2 < (of_int n + 1 / 2 :: rat)"
    by (auto simp: is_round_half_up_def)
  then have "(of_int n :: rat) < of_int m + 1" and "(of_int m :: rat) < of_int n + 1"
    by simp_all
  then have "(of_int n :: rat) < of_int (m + 1)" and "(of_int m :: rat) < of_int (n + 1)"
    by simp_all
  then have "n < m + 1" and "m < n + 1" by (simp_all only: of_int_less_iff)
  then show ?thesis by simp
qed

lemma js_round_mono: "x \<le> y \<Longrightarrow> js_round x \<le> js_round y"
  by (simp add: js_round_def floor_mono)

lemma js_round_of_int: "js_round (of_int n) = n"
proof -
  have "is_round_half_up (of_int n) n" by (simp add: is_round_half_up_def)
  then show ?thesis
    using js_round_is_round_half_up is_round_half_up_unique by blast
qed

lemma js_round_nonneg: "0 \<le> x \<Longrightarrow> 0 \<le> js_round x"
  using js_round_mono [of 0 x] js_round_of_int [of 0] by simp

subsection \<open>Fee calculator\<close>

lemma calculateTransactionCharge_rate:
  "calculateTransactionCharge a = js_round (of_int a * tier_rate a)"
  by (simp add: calculateTransactionCharge_def tier_rate_def mult.commute)



subsection \<open>Split calculator\<close>







text \<open>
  C6, as stated, has the percentage error raised exactly when the percentage is outside
  \<open>[0, 100]\<close>. The charge is checked first: with charge 0 and percentage 150 the
  charge error is raised, not the percentage error.
\<close>

theorem calculateSplit_percentage_error_counterexample:
  "\<not> (calculateSplit 0 150 = Inl PercentageOutOfRange \<longleftrightarrow> ((150::rat) < 0 \<or> (150::rat) > 100))"
  by (simp add: calculateSplit_def)

text \<open>
  C6 (amended). \<^verbatim>\<open>calculateSplit\<close> raises the charge error exactly when the service
  charge is below 1; it raises the percentage error exactly when the charge is at least 1
  and the percentage is outside \<open>[0, 100]\<close>; it returns normally exactly when both
  preconditions hold.
\<close>

theorem calculateSplit_errors:
  "(calculateSplit serviceCharge platformPercent = Inl ChargeBelowOne \<longleftrightarrow> serviceCharge < 1)
   \<and> (calculateSplit serviceCharge platformPercent = Inl PercentageOutOfRange \<longleftrightarrow>
        1 \<le> serviceCharge \<and> (platformPercent < 0 \<or> 100 < platformPercent))
   \<and> ((\<exists>r. calculateSplit serviceCharge platformPercent = Inr r) \<longleftrightarrow>
        1 \<le> serviceCharge \<and> 0 \<le> platformPercent \<and> platformPercent \<le> 100)"
  by (auto simp: calculateSplit_def Let_def)

theorem calculateSplit_errors_witness:
  "calculateSplit 0 150 = Inl ChargeBelowOne
   \<and> calculateSplit 3 150 = Inl PercentageOutOfRange
   \<and> (\<exists>r. calculateSplit 3 50 = Inr r)"
  using calculateSplit_errors [of 0 150] calculateSplit_errors [of 3 150] calculateSplit_errors [of 3 50]
  by simp

subsection \<open>Binary64 evaluation gives the same charges\<close>

text \<open>
  Rounding to binary64 is monotone and leaves every number with a significand below
  \<open>2^53\<close> as it is. With that, the fee computed in doubles equals the fee computed exactly
  for every amount from 1 to 100000, the range the amount schema admits, and the developer
  share computed in doubles lies between 0 and the charge.
\<close>

lemma round_even_bounds: "of_int (round_even x) - 1 / 2 \<le> x \<and> x \<le> of_int (round_even x) + 1 / 2"
proof -
  define n where "n = \<lfloor>x\<rfloor>"
  have "of_int n \<le> x" "x < of_int n + 1" unfolding n_def by linarith+
  then show ?thesis
    unfolding round_even_def Let_def n_def [symmetric]
    by (auto simp: not_less)
qed

lemma round_even_of_int [simp]: "round_even (of_int n) = n"
  by (simp add: round_even_def)

lemma round_even_mono:
  assumes "x \<le> y"
  shows "round_even x \<le> round_even y"
proof (rule ccontr)
  assume "\<not> round_even x \<le> round_even y"
  then have lt: "round_even y + 1 \<le> round_even x" by simp
  from round_even_bounds [of x] round_even_bounds [of y] assms
  have "of_int (round_even x) - 1 / 2 \<le> (of_int (round_even y) + 1 / 2 :: rat)" by linarith
  then have "(of_int (round_even x) :: rat) \<le> of_int (round_even y + 1)" by simp
  then have le: "round_even x \<le> round_even y + 1" by (simp only: of_int_le_iff)
  with lt have eq: "round_even x = round_even y + 1" by simp
  have e: "(of_int (round_even x) :: rat) = of_int (round_even y) + 1" by (simp add: eq)
  from round_even_bounds [of x] round_even_bounds [of y] assms
  have "x = y" unfolding e by linarith
  with eq show False by simp
qed


lemma binexp_bounds:
  assumes "0 < x"
  shows "2 powi binexp x \<le> x \<and> x < 2 powi (binexp x + 1)"
proof (cases "1 \<le> x")
  case True
  define n where "n = nat \<lfloor>x\<rfloor>"
  have n1: "0 < n" using True by (simp add: n_def)
  have nx: "of_nat n \<le> x" "x < of_nat n + 1"
    using True unfolding n_def by (simp_all add: of_nat_nat, linarith)
  from floorlog_bounds [of n 2] n1
  have lo: "2 ^ (floorlog 2 n - 1) \<le> n" and hi: "n < 2 ^ floorlog 2 n" by simp_all
  have f1: "1 \<le> floorlog 2 n" using n1 by (simp add: floorlog_def)
  have e: "binexp x = int (floorlog 2 n - 1)" "binexp x + 1 = int (floorlog 2 n)"
    using True f1 by (simp_all add: binexp_def n_def)
  have lo': "(2::rat) ^ (floorlog 2 n - 1) \<le> of_nat n"
    using lo by (metis of_nat_le_iff of_nat_numeral of_nat_power)
  from lo' nx(1) have a: "(2::rat) ^ (floorlog 2 n - 1) \<le> x" by (rule order_trans)
  from hi have "n + 1 \<le> 2 ^ floorlog 2 n" by simp
  then have "(of_nat (n + 1) :: rat) \<le> 2 ^ floorlog 2 n"
    by (metis of_nat_le_iff of_nat_numeral of_nat_power)
  then have hi': "(of_nat n :: rat) + 1 \<le> 2 ^ floorlog 2 n" by simp
  from nx(2) hi' have b: "x < (2::rat) ^ floorlog 2 n" by (rule less_le_trans)
  have p1: "(2::rat) powi binexp x = 2 ^ (floorlog 2 n - 1)" by (simp only: e(1) power_int_of_nat)
  have p2: "(2::rat) powi (binexp x + 1) = 2 ^ floorlog 2 n" by (simp only: e(2) power_int_of_nat)
  from a b show ?thesis unfolding p1 p2 by simp
next
  case False
  define y where "y = 1 / x"
  have y1: "1 < y" using False assms by (simp add: y_def)
  define n where "n = nat (\<lceil>y\<rceil> - 1)"
  have c2: "2 \<le> \<lceil>y\<rceil>" using y1 by linarith
  have n1: "0 < n" using c2 by (simp add: n_def)
  have ny: "of_nat n < y" "y \<le> of_nat n + 1"
    using c2 unfolding n_def by (simp_all add: of_nat_nat, linarith+)
  from floorlog_bounds [of n 2] n1
  have lo: "2 ^ (floorlog 2 n - 1) \<le> n" and hi: "n < 2 ^ floorlog 2 n" by simp_all
  have f1: "1 \<le> floorlog 2 n" using n1 by (simp add: floorlog_def)
  have e: "binexp x = - int (floorlog 2 n)" "binexp x + 1 = - int (floorlog 2 n - 1)"
    using False f1 by (simp_all add: binexp_def n_def y_def)
  have lo': "(2::rat) ^ (floorlog 2 n - 1) \<le> of_nat n"
    using lo by (metis of_nat_le_iff of_nat_numeral of_nat_power)
  from lo' ny(1) have a: "(2::rat) ^ (floorlog 2 n - 1) < y" by (rule le_less_trans)
  from hi have "n + 1 \<le> 2 ^ floorlog 2 n" by simp
  then have "(of_nat (n + 1) :: rat) \<le> 2 ^ floorlog 2 n"
    by (metis of_nat_le_iff of_nat_numeral of_nat_power)
  then have hi': "(of_nat n :: rat) + 1 \<le> 2 ^ floorlog 2 n" by simp
  from ny(2) hi' have b: "y \<le> (2::rat) ^ floorlog 2 n" by (rule order_trans)
  have x: "x = 1 / y" using assms by (simp add: y_def)
  have p: "(0::rat) < 2 ^ floorlog 2 n" "(0::rat) < 2 ^ (floorlog 2 n - 1)" by simp_all
  have y0: "0 < y" using y1 by simp
  from b have "1 / (2::rat) ^ floorlog 2 n \<le> 1 / y"
    using y0 by (simp add: frac_le)
  moreover from a have "1 / y < 1 / (2::rat) ^ (floorlog 2 n - 1)"
    using p(2) by (simp add: frac_less2)
  ultimately have c: "1 / (2::rat) ^ floorlog 2 n \<le> x \<and> x < 1 / (2::rat) ^ (floorlog 2 n - 1)"
    unfolding x by simp
  have p1: "(2::rat) powi binexp x = 1 / 2 ^ floorlog 2 n"
    by (simp only: e(1) power_int_minus_divide power_int_of_nat)
  have p2: "(2::rat) powi (binexp x + 1) = 1 / 2 ^ (floorlog 2 n - 1)"
    by (simp only: e(2) power_int_minus_divide power_int_of_nat)
  from c show ?thesis unfolding p1 p2 .
qed

lemma binexp_unique:
  assumes "2 powi e \<le> x" and "x < 2 powi (e + 1)"
  shows "binexp x = e"
proof -
  have x0: "0 < x" using assms(1) by (rule less_le_trans [rotated]) simp
  note b = binexp_bounds [OF x0]
  have "binexp x < e + 1"
  proof (rule ccontr)
    assume "\<not> binexp x < e + 1"
    then have "(2::rat) powi (e + 1) \<le> 2 powi binexp x" by (intro power_int_increasing) simp_all
    with b assms show False by linarith
  qed
  moreover have "e < binexp x + 1"
  proof (rule ccontr)
    assume "\<not> e < binexp x + 1"
    then have "(2::rat) powi (binexp x + 1) \<le> 2 powi e" by (intro power_int_increasing) simp_all
    with b assms show False by linarith
  qed
  ultimately show ?thesis by simp
qed


lemma binary64_pos:
  "0 < x \<Longrightarrow> binary64 x = of_int (round_even (x / 2 powi (binexp x - 52))) * 2 powi (binexp x - 52)"
  by (simp add: binary64_def Let_def)

lemma scaled_range:
  assumes "0 < x"
  shows "2 ^ 52 \<le> x / 2 powi (binexp x - 52) \<and> x / 2 powi (binexp x - 52) < 2 ^ 53"
proof -
  define e where "e = binexp x"
  define u :: rat where "u = 2 powi (e - 52)"
  have u0: "0 < u" by (simp add: u_def)
  have a: "2 powi e = 2 ^ 52 * u"
    unfolding u_def by (simp add: power_int_diff)
  have b: "(2::rat) powi (e + 1) = 2 ^ 53 * u"
    unfolding u_def by (simp add: power_int_diff power_int_add)
  from binexp_bounds [OF assms] have "2 ^ 52 * u \<le> x" "x < 2 ^ 53 * u"
    unfolding e_def [symmetric] a b by simp_all
  then have "2 ^ 52 \<le> x / u \<and> x / u < 2 ^ 53"
    using u0 by (simp add: pos_le_divide_eq pos_divide_less_eq)
  then show ?thesis unfolding u_def e_def .
qed

lemma binary64_range:
  assumes "0 < x"
  shows "2 powi binexp x \<le> binary64 x \<and> binary64 x \<le> 2 powi (binexp x + 1)"
proof -
  define e where "e = binexp x"
  define u :: rat where "u = 2 powi (e - 52)"
  have u0: "0 < u" by (simp add: u_def)
  have a: "2 powi e = 2 ^ 52 * u"
    unfolding u_def by (simp add: power_int_diff)
  have b: "(2::rat) powi (e + 1) = 2 ^ 53 * u"
    unfolding u_def by (simp add: power_int_diff power_int_add)
  from scaled_range [OF assms] have r: "2 ^ 52 \<le> x / u" "x / u < 2 ^ 53"
    unfolding u_def e_def by simp_all
  have "round_even (of_int (2 ^ 52)) \<le> round_even (x / u)"
    by (rule round_even_mono) (use r(1) in simp)
  then have lo: "2 ^ 52 \<le> round_even (x / u)" by (simp only: round_even_of_int)
  have "round_even (x / u) \<le> round_even (of_int (2 ^ 53))"
    by (rule round_even_mono) (use r(2) in simp)
  then have hi: "round_even (x / u) \<le> 2 ^ 53" by (simp only: round_even_of_int)
  from lo have "(of_int (2 ^ 52) :: rat) \<le> of_int (round_even (x / u))" by (simp only: of_int_le_iff)
  then have lo': "2 ^ 52 * u \<le> of_int (round_even (x / u)) * u"
    using u0 by simp
  from hi have "(of_int (round_even (x / u)) :: rat) \<le> of_int (2 ^ 53)" by (simp only: of_int_le_iff)
  then have hi': "of_int (round_even (x / u)) * u \<le> 2 ^ 53 * u"
    using u0 by simp
  have "binary64 x = of_int (round_even (x / u)) * u"
    using assms by (simp add: binary64_pos u_def e_def)
  with lo' hi' show ?thesis unfolding e_def [symmetric] a b by simp
qed

lemma binary64_mono_pos:
  assumes "0 < x" and "x \<le> y"
  shows "binary64 x \<le> binary64 y"
proof -
  have y0: "0 < y" using assms by simp
  note bx = binexp_bounds [OF assms(1)] and by' = binexp_bounds [OF y0]
  have le: "binexp x \<le> binexp y"
  proof (rule ccontr)
    assume "\<not> binexp x \<le> binexp y"
    then have "(2::rat) powi (binexp y + 1) \<le> 2 powi binexp x" by (intro power_int_increasing) simp_all
    with bx by' assms(2) show False by linarith
  qed
  show ?thesis
  proof (cases "binexp x = binexp y")
    case True
    define u :: rat where "u = 2 powi (binexp y - 52)"
    have u0: "0 < u" by (simp add: u_def)
    have "x / u \<le> y / u" using assms(2) u0 by (simp add: divide_right_mono)
    then have "round_even (x / u) \<le> round_even (y / u)" by (rule round_even_mono)
    then have "(of_int (round_even (x / u)) :: rat) \<le> of_int (round_even (y / u))"
      by (simp only: of_int_le_iff)
    then have "of_int (round_even (x / u)) * u \<le> of_int (round_even (y / u)) * u"
      using u0 by simp
    then show ?thesis
      using assms(1) y0 True by (simp add: binary64_pos u_def)
  next
    case False
    with le have "binexp x + 1 \<le> binexp y" by simp
    then have "(2::rat) powi (binexp x + 1) \<le> 2 powi binexp y" by (intro power_int_increasing) simp_all
    with binary64_range [OF assms(1)] binary64_range [OF y0] show ?thesis by linarith
  qed
qed

lemma binary64_0 [simp]: "binary64 0 = 0"
  by (simp add: binary64_def)

lemma binary64_pos_pos: "0 < x \<Longrightarrow> 0 < binary64 x"
proof -
  assume x: "0 < x"
  have "(0::rat) < 2 powi binexp x" by simp
  with binary64_range [OF x] show ?thesis by linarith
qed

lemma binary64_mono_nonneg:
  assumes "0 \<le> x" and "x \<le> y"
  shows "binary64 x \<le> binary64 y"
proof (cases "x = 0")
  case True
  show ?thesis
  proof (cases "y = 0")
    case True
    with \<open>x = 0\<close> show ?thesis by simp
  next
    case False
    with assms True have "0 < y" by simp
    from binary64_pos_pos [OF this] True show ?thesis by simp
  qed
next
  case False
  with assms have "0 < x" by simp
  then show ?thesis using assms(2) by (rule binary64_mono_pos)
qed

lemma binary64_representable:
  assumes m: "0 < m" "m < 2 ^ 53"
  shows "binary64 (of_int m * 2 powi k) = of_int m * 2 powi k"
proof -
  define x :: rat where "x = of_int m * 2 powi k"
  have x0: "0 < x" using m(1) by (simp add: x_def)
  define e where "e = binexp x"
  have "(of_int m :: rat) < of_int (2 ^ 53)" using m(2) by (simp only: of_int_less_iff)
  then have "x < 2 ^ 53 * 2 powi k" by (simp add: x_def)
  also have "\<dots> = 2 powi (53 + k)" by (simp add: power_int_add)
  finally have "x < 2 powi (53 + k)" .
  with binexp_bounds [OF x0] have "(2::rat) powi e < 2 powi (53 + k)"
    unfolding e_def by linarith
  then have lt: "(2::rat) powi e < 2 powi (53 + k)" .
  have ek: "e < 53 + k"
  proof (rule ccontr)
    assume "\<not> e < 53 + k"
    then have "53 + k \<le> e" by simp
    then have "(2::rat) powi (53 + k) \<le> 2 powi e" by (intro power_int_increasing) simp_all
    with lt show False by simp
  qed
  define d where "d = nat (k - e + 52)"
  have d: "k - e + 52 = int d" using ek by (simp add: d_def)
  define u :: rat where "u = 2 powi (e - 52)"
  have u0: "u \<noteq> 0" by (simp add: u_def)
  have "2 powi k = (2::rat) powi (int d) * u"
    unfolding u_def d [symmetric] by (simp flip: power_int_add)
  then have k: "2 powi k = (2::rat) ^ d * u" by simp
  have "x / u = of_int (m * 2 ^ d)"
    using u0 by (simp add: x_def k)
  then have "round_even (x / u) = m * 2 ^ d" by (simp only: round_even_of_int)
  then have "of_int (round_even (x / u)) * u = x"
    by (simp add: x_def k)
  then show ?thesis
    using x0 unfolding x_def [symmetric] by (simp add: binary64_pos u_def e_def)
qed

lemma round_even_eqI:
  assumes "of_int n - 1 / 2 < x" and "x < of_int n + 1 / 2"
  shows "round_even x = n"
proof -
  from round_even_bounds [of x] assms
  have "of_int (round_even x) - 1 / 2 < (of_int n + 1 / 2 :: rat)"
    and "of_int n - 1 / 2 < (of_int (round_even x) + 1 / 2 :: rat)"
    by linarith+
  then have "(of_int (round_even x) :: rat) < of_int (n + 1)" "(of_int n :: rat) < of_int (round_even x + 1)"
    by simp_all
  then have "round_even x < n + 1" "n < round_even x + 1" by (simp_all only: of_int_less_iff)
  then show ?thesis by simp
qed

lemma binary64_eqI:
  assumes "2 powi e \<le> x" and "x < 2 powi (e + 1)"
    and "of_int n - 1 / 2 < x / 2 powi (e - 52)" and "x / 2 powi (e - 52) < of_int n + 1 / 2"
  shows "binary64 x = of_int n * 2 powi (e - 52)"
proof -
  have x0: "0 < x" using assms(1) by (rule less_le_trans [rotated]) simp
  have e: "binexp x = e" using assms(1,2) by (rule binexp_unique)
  have "round_even (x / 2 powi (e - 52)) = n" using assms(3,4) by (rule round_even_eqI)
  then show ?thesis using x0 by (simp add: binary64_pos e)
qed

lemma lit_12: "binary64 (12 / 10) = 5404319552844595 / 2 ^ 52"
  using binary64_eqI [of 0 "12 / 10" 5404319552844595] by simp

lemma lit_8: "binary64 (8 / 10) = 7205759403792794 / 2 ^ 53"
  using binary64_eqI [of "-1" "8 / 10" 7205759403792794] by simp

lemma rate_15: "binary64 (15 / 10 / 100) = 8646911284551352 / 2 ^ 59"
  using binary64_eqI [of "-7" "15 / 10 / 100" 8646911284551352] by simp

lemma rate_12: "binary64 (5404319552844595 / 2 ^ 52 / 100) = 6917529027641082 / 2 ^ 59"
  using binary64_eqI [of "-7" "5404319552844595 / 2 ^ 52 / 100" 6917529027641082] by simp

lemma rate_10: "binary64 (1 / 100) = 5764607523034235 / 2 ^ 59"
  using binary64_eqI [of "-7" "1 / 100" 5764607523034235] by simp

lemma rate_8: "binary64 (7205759403792794 / 2 ^ 53 / 100) = 4611686018427388 / 2 ^ 59"
  using binary64_eqI [of "-7" "7205759403792794 / 2 ^ 53 / 100" 4611686018427388] by simp


lemma binary64_int:
  assumes "0 \<le> n" and "n < 2 ^ 53"
  shows "binary64 (of_int n) = of_int n"
proof (cases "n = 0")
  case True
  then show ?thesis by simp
next
  case False
  with assms have "0 < n" by simp
  from binary64_representable [OF this assms(2), of 0] show ?thesis by simp
qed

lemma js_round_binary64_eq:
  assumes x0: "0 < x" and lo: "of_int k - 1 / 2 \<le> x" and hi: "x \<le> of_int k + 1 / 2 - 1 / 2 ^ 20"
    and k0: "0 \<le> k" and k1: "k < 2 ^ 31"
  shows "js_round (binary64 x) = k"
proof -
  have lower: "of_int k - 1 / 2 \<le> binary64 x"
  proof (cases "k = 0")
    case True
    with binary64_pos_pos [OF x0] show ?thesis by simp
  next
    case False
    with k0 have k: "1 \<le> k" by simp
    have m: "0 < 2 * k - 1" "2 * k - 1 < 2 ^ 53" using k k1 by simp_all
    have h: "(of_int k - 1 / 2 :: rat) = of_int (2 * k - 1) * 2 powi (- 1)" by simp
    have fixed: "binary64 (of_int k - 1 / 2) = of_int k - 1 / 2"
      unfolding h using m by (rule binary64_representable)
    have "(0::rat) < of_int k - 1 / 2" using k by simp
    from binary64_mono_pos [OF this lo] show ?thesis by (simp only: fixed)
  qed
  have upper: "binary64 x < of_int k + 1 / 2"
  proof -
    define m where "m = (2 * k + 1) * 2 ^ 19 - 1"
    have m: "0 < m" "m < 2 ^ 53" using k0 k1 by (simp_all add: m_def)
    have h: "(of_int k + 1 / 2 - 1 / 2 ^ 20 :: rat) = of_int m * 2 powi (- 20)"
      by (simp add: m_def field_simps)
    have fixed: "binary64 (of_int k + 1 / 2 - 1 / 2 ^ 20) = of_int k + 1 / 2 - 1 / 2 ^ 20"
      unfolding h using m by (rule binary64_representable)
    from binary64_mono_pos [OF x0 hi] have "binary64 x \<le> of_int k + 1 / 2 - 1 / 2 ^ 20"
      by (simp only: fixed)
    then show ?thesis by simp
  qed
  from lower upper have "is_round_half_up (binary64 x) k" by (simp add: is_round_half_up_def)
  with js_round_is_round_half_up show ?thesis by (rule is_round_half_up_unique)
qed


lemma lit_15: "binary64 (15 / 10) = 15 / 10"
  using binary64_representable [of 3 "- 1"] by simp

lemma lit_1: "binary64 1 = 1"
  using binary64_int [of 1] by simp

lemma per_mille_bounds:
  assumes a: "1 \<le> a" "a \<le> 100000" and N: "0 < N" "N \<le> 15"
  defines "k \<equiv> js_round (of_int a * (of_int N / 1000))"
  shows "0 \<le> k" and "k < 2 ^ 31"
    and "of_int k - 1 / 2 \<le> of_int a * (of_int N / 1000 :: rat)"
    and "of_int a * (of_int N / 1000 :: rat) \<le> of_int k + 1 / 2 - 1 / 1000"
    and "(N * a + 500) mod 1000 \<noteq> 0 \<Longrightarrow> of_int k - 1 / 2 + 1 / 1000 \<le> of_int a * (of_int N / 1000 :: rat)"
proof -
  define x :: rat where "x = of_int a * (of_int N / 1000)"
  have x: "x = of_int (N * a) / 1000" by (simp add: x_def)
  have x0: "0 \<le> x" using a N by (simp add: x_def)
  from js_round_is_round_half_up [of x] have b: "of_int k - 1 / 2 \<le> x" "x < of_int k + 1 / 2"
    by (simp_all add: is_round_half_up_def k_def x_def)
  show "0 \<le> k" unfolding k_def x_def [symmetric] using x0 by (rule js_round_nonneg)
  have "N * a \<le> 15 * 100000" using a N by (intro mult_mono) simp_all
  then have "(of_int (N * a) :: rat) \<le> of_int (15 * 100000)" by (simp only: of_int_le_iff)
  then have "x \<le> 1500" by (simp add: x)
  with b(1) have "(of_int k :: rat) < of_int 1501" by simp
  then have "k < 1501" by (simp only: of_int_less_iff)
  then show "k < 2 ^ 31" by simp
  show "of_int k - 1 / 2 \<le> of_int a * (of_int N / 1000 :: rat)" using b(1) by (simp add: x_def)
  from b(2) have "(of_int (N * a) :: rat) < of_int (1000 * k + 500)" by (simp add: x)
  then have lt: "N * a < 1000 * k + 500" by (simp only: of_int_less_iff)
  then have "N * a + 1 \<le> 1000 * k + 500" by simp
  then have "(of_int (N * a + 1) :: rat) \<le> of_int (1000 * k + 500)" by (simp only: of_int_le_iff)
  then have "x \<le> of_int k + 1 / 2 - 1 / 1000" by (simp add: x)
  then show "of_int a * (of_int N / 1000 :: rat) \<le> of_int k + 1 / 2 - 1 / 1000" by (simp add: x_def)
  from b(1) have "(of_int (1000 * k - 500) :: rat) \<le> of_int (N * a)" by (simp add: x)
  then have ge: "1000 * k - 500 \<le> N * a" by (simp only: of_int_le_iff)
  show "of_int k - 1 / 2 + 1 / 1000 \<le> of_int a * (of_int N / 1000 :: rat)"
    if "(N * a + 500) mod 1000 \<noteq> 0"
  proof -
    have "N * a + 500 \<noteq> 1000 * k" using that by auto
    with ge have "1000 * k - 499 \<le> N * a" by simp
    then have "(of_int (1000 * k - 499) :: rat) \<le> of_int (N * a)" by (simp only: of_int_le_iff)
    then have "of_int k - 1 / 2 + 1 / 1000 \<le> x" by (simp add: x)
    then show ?thesis by (simp add: x_def)
  qed
qed

lemma rounded_up_rate_agrees:
  assumes a: "1 \<le> a" "a \<le> 100000" and N: "0 < N" "N \<le> 15"
    and up: "of_int N / 1000 \<le> c" and near: "(c - of_int N / 1000) * 100000 \<le> 1 / 1000 - 1 / 2 ^ 20"
  shows "js_round (binary64 (of_int a * c)) = js_round (of_int a * (of_int N / 1000))"
proof -
  define k where "k = js_round (of_int a * (of_int N / 1000))"
  note pm = per_mille_bounds [OF a N, folded k_def]
  have a0: "(0::rat) < of_int a" "(of_int a :: rat) \<le> 100000" using a by simp_all
  have c0: "0 < c" using up N(1) by (rule_tac less_le_trans [of _ "of_int N / 1000"]) simp_all
  have x0: "0 < of_int a * c" using a0(1) c0 by (rule mult_pos_pos)
  have d0: "0 \<le> c - of_int N / 1000" using up by simp
  have "of_int a * (of_int N / 1000) \<le> of_int a * c"
    using up a0(1) by (simp add: mult_left_mono)
  with pm(3) have lo: "of_int k - 1 / 2 \<le> of_int a * c" by simp
  have "of_int a * (c - of_int N / 1000) \<le> 100000 * (c - of_int N / 1000)"
    using a0(2) d0 by (rule mult_right_mono)
  with near have "of_int a * (c - of_int N / 1000) \<le> 1 / 1000 - 1 / 2 ^ 20" by (simp add: mult.commute)
  moreover have "of_int a * c = of_int a * (of_int N / 1000) + of_int a * (c - of_int N / 1000)"
    by (simp add: algebra_simps)
  ultimately have hi: "of_int a * c \<le> of_int k + 1 / 2 - 1 / 2 ^ 20"
    using pm(4) by linarith
  from js_round_binary64_eq [OF x0 lo hi pm(1) pm(2)] show ?thesis by (simp add: k_def)
qed


lemma rounded_down_rate_agrees:
  assumes a: "1 \<le> a" "a \<le> 100000" and N: "0 < N" "N \<le> 15"
    and c0: "0 < c" and down: "c \<le> of_int N / 1000"
    and near: "(of_int N / 1000 - c) * 100000 \<le> 1 / 1000"
    and no_tie: "(N * a + 500) mod 1000 \<noteq> 0"
  shows "js_round (binary64 (of_int a * c)) = js_round (of_int a * (of_int N / 1000))"
proof -
  define k where "k = js_round (of_int a * (of_int N / 1000))"
  note pm = per_mille_bounds [OF a N, folded k_def]
  have a0: "(0::rat) < of_int a" "(of_int a :: rat) \<le> 100000" using a by simp_all
  have x0: "0 < of_int a * c" using a0(1) c0 by (rule mult_pos_pos)
  have d0: "0 \<le> of_int N / 1000 - c" using down by simp
  have "of_int a * c \<le> of_int a * (of_int N / 1000)"
    using down a0(1) by (simp add: mult_left_mono)
  with pm(4) have "of_int a * c \<le> of_int k + 1 / 2 - 1 / 1000" by simp
  moreover have "(1 / 2 ^ 20 :: rat) \<le> 1 / 1000" by simp
  ultimately have hi: "of_int a * c \<le> of_int k + 1 / 2 - 1 / 2 ^ 20" by linarith
  have "of_int a * (of_int N / 1000 - c) \<le> 100000 * (of_int N / 1000 - c)"
    using a0(2) d0 by (rule mult_right_mono)
  with near have "of_int a * (of_int N / 1000 - c) \<le> 1 / 1000" by (simp add: mult.commute)
  moreover have "of_int a * c = of_int a * (of_int N / 1000) - of_int a * (of_int N / 1000 - c)"
    by (simp add: algebra_simps)
  ultimately have lo: "of_int k - 1 / 2 \<le> of_int a * c"
    using pm(5) [OF no_tie] by linarith
  from js_round_binary64_eq [OF x0 lo hi pm(1) pm(2)] show ?thesis by (simp add: k_def)
qed

lemma tie_100: "js_round (binary64 (of_int 100 * (8646911284551352 / 2 ^ 59))) = 2"
proof -
  define x :: rat where "x = of_int 100 * (8646911284551352 / 2 ^ 59)"
  have "binary64 x = 3 / 2"
    using binary64_eqI [of 0 x 6755399441055744] by (simp add: x_def)
  then have "js_round (binary64 x) = 2" by (simp add: js_round_def floor_eq_iff)
  then show ?thesis unfolding x_def .
qed

lemma tie_300: "js_round (binary64 (of_int 300 * (8646911284551352 / 2 ^ 59))) = 5"
proof -
  define x :: rat where "x = of_int 300 * (8646911284551352 / 2 ^ 59)"
  have "binary64 x = 9 / 2"
    using binary64_eqI [of 2 x 5066549580791808] by (simp add: x_def)
  then have "js_round (binary64 x) = 5" by (simp add: js_round_def floor_eq_iff)
  then show ?thesis unfolding x_def .
qed

lemma tie_500: "js_round (binary64 (of_int 500 * (8646911284551352 / 2 ^ 59))) = 8"
proof -
  define x :: rat where "x = of_int 500 * (8646911284551352 / 2 ^ 59)"
  have "binary64 x = 15 / 2"
    using binary64_eqI [of 2 x 8444249301319680] by (simp add: x_def)
  then have "js_round (binary64 x) = 8" by (simp add: js_round_def floor_eq_iff)
  then show ?thesis unfolding x_def .
qed

lemma tier_1_ties:
  assumes "1 \<le> (a::int)" and "a \<le> 500" and "(15 * a + 500) mod 1000 = 0"
  shows "a = 100 \<or> a = 300 \<or> a = 500"
proof -
  from assms(3) obtain q where q: "15 * a + 500 = 1000 * q"
    by (auto simp: mod_eq_0_iff_dvd dvd_def)
  then have q3: "3 * a + 100 = 200 * q" by simp
  with assms(1,2) have "1 \<le> q" "q \<le> 8" by simp_all
  then consider "q = 1" | "q = 2" | "q = 3" | "q = 4" | "q = 5" | "q = 6" | "q = 7" | "q = 8"
    by linarith
  then show ?thesis
    using q3 by cases (simp_all, presburger+)
qed

lemma calculateTransactionCharge_binary64_agrees:
  assumes "1 \<le> a" and "a \<le> 100000"
  shows "calculateTransactionCharge_binary64 a = calculateTransactionCharge a"
proof -
  have amt: "binary64 (of_int a) = of_int a"
    using assms by (intro binary64_int) simp_all
  consider "a \<le> 500" | "500 < a" "a \<le> 1000" | "1000 < a" "a \<le> 2000" | "2000 < a" by linarith
  then show ?thesis
  proof cases
    case 1
    have "tier_rate a = of_int 15 / 1000" using 1 by (simp add: tier_rate_def)
    then have exact: "calculateTransactionCharge a = js_round (of_int a * (of_int 15 / 1000))"
      by (simp only: calculateTransactionCharge_rate)
    have b64: "calculateTransactionCharge_binary64 a =
        js_round (binary64 (of_int a * (8646911284551352 / 2 ^ 59)))"
      using 1 by (simp only: calculateTransactionCharge_binary64_def Let_def lit_15 rate_15 amt if_True)
    show ?thesis
    proof (cases "(15 * a + 500) mod 1000 = 0")
      case False
      have "js_round (binary64 (of_int a * (8646911284551352 / 2 ^ 59))) =
          js_round (of_int a * (of_int 15 / 1000))"
        by (rule rounded_down_rate_agrees [OF assms _ _ _ _ _ False]) simp_all
      with exact b64 show ?thesis by simp
    next
      case True
      from tier_1_ties [OF assms(1) 1 True] have ties: "a = 100 \<or> a = 300 \<or> a = 500" .
      have e100: "js_round (of_int 100 * (of_int 15 / 1000)) = 2"
        and e300: "js_round (of_int 300 * (of_int 15 / 1000)) = 5"
        and e500: "js_round (of_int 500 * (of_int 15 / 1000)) = 8"
        by (simp_all add: js_round_def floor_eq_iff)
      from ties show ?thesis
        unfolding exact b64
        by (elim disjE) (simp_all only: tie_100 tie_300 tie_500 e100 e300 e500)
    qed
  next
    case 2
    have "tier_rate a = of_int 12 / 1000" using 2 by (simp add: tier_rate_def)
    then have exact: "calculateTransactionCharge a = js_round (of_int a * (of_int 12 / 1000))"
      by (simp only: calculateTransactionCharge_rate)
    have b64: "calculateTransactionCharge_binary64 a =
        js_round (binary64 (of_int a * (6917529027641082 / 2 ^ 59)))"
    proof -
      have conds: "\<not> a \<le> 500" "a \<le> 1000" using 2 by simp_all
      show ?thesis
        by (simp only: calculateTransactionCharge_binary64_def Let_def conds if_False if_True lit_12 rate_12 amt)
    qed
    have "js_round (binary64 (of_int a * (6917529027641082 / 2 ^ 59))) =
          js_round (of_int a * (of_int 12 / 1000))"
      by (rule rounded_up_rate_agrees [OF assms]) simp_all
    with exact b64 show ?thesis by simp
  next
    case 3
    have "tier_rate a = of_int 10 / 1000" using 3 by (simp add: tier_rate_def)
    then have exact: "calculateTransactionCharge a = js_round (of_int a * (of_int 10 / 1000))"
      by (simp only: calculateTransactionCharge_rate)
    have b64: "calculateTransactionCharge_binary64 a =
        js_round (binary64 (of_int a * (5764607523034235 / 2 ^ 59)))"
    proof -
      have conds: "\<not> a \<le> 500" "\<not> a \<le> 1000" "a \<le> 2000" using 3 by simp_all
      show ?thesis
        by (simp only: calculateTransactionCharge_binary64_def Let_def conds if_False if_True lit_1 rate_10 amt)
    qed
    have "js_round (binary64 (of_int a * (5764607523034235 / 2 ^ 59))) =
          js_round (of_int a * (of_int 10 / 1000))"
      by (rule rounded_up_rate_agrees [OF assms]) simp_all
    with exact b64 show ?thesis by simp
  next
    case 4
    have "tier_rate a = of_int 8 / 1000" using 4 by (simp add: tier_rate_def)
    then have exact: "calculateTransactionCharge a = js_round (of_int a * (of_int 8 / 1000))"
      by (simp only: calculateTransactionCharge_rate)
    have b64: "calculateTransactionCharge_binary64 a =
        js_round (binary64 (of_int a * (4611686018427388 / 2 ^ 59)))"
    proof -
      have conds: "\<not> a \<le> 500" "\<not> a \<le> 1000" "\<not> a \<le> 2000" using 4 by simp_all
      show ?thesis
        by (simp only: calculateTransactionCharge_binary64_def Let_def conds if_False if_True lit_8 rate_8 amt)
    qed
    have "js_round (binary64 (of_int a * (4611686018427388 / 2 ^ 59))) =
          js_round (of_int a * (of_int 8 / 1000))"
      by (rule rounded_up_rate_agrees [OF assms]) simp_all
    with exact b64 show ?thesis by simp
  qed
qed


lemma binary64_nonneg: "0 \<le> x \<Longrightarrow> 0 \<le> binary64 x"
  using binary64_mono_nonneg [of 0 x] by simp

lemma developerShare_range_binary64:
  assumes c: "1 \<le> c" "c < 2 ^ 53" and p: "0 \<le> p" "p \<le> 100"
  shows "0 \<le> js_round (binary64 (binary64 (of_int c) * binary64 (p / 100)))
    \<and> js_round (binary64 (binary64 (of_int c) * binary64 (p / 100))) \<le> c"
proof -
  have amt: "binary64 (of_int c) = of_int c"
    using c by (intro binary64_int) simp_all
  define q where "q = binary64 (p / 100)"
  have q0: "0 \<le> q" unfolding q_def using p(1) by (intro binary64_nonneg) simp
  have "binary64 (p / 100) \<le> binary64 1"
    using p by (intro binary64_mono_nonneg) simp_all
  then have q1: "q \<le> 1" by (simp add: q_def lit_1)
  have c0: "(0::rat) \<le> of_int c" using c(1) by simp
  have lo: "0 \<le> of_int c * q" using c0 q0 by (rule mult_nonneg_nonneg)
  have "of_int c * q \<le> of_int c * 1" using q1 c0 by (rule mult_left_mono)
  then have hi: "of_int c * q \<le> of_int c" by simp
  from binary64_mono_nonneg [OF lo hi] have "binary64 (of_int c * q) \<le> of_int c"
    by (simp only: amt)
  from js_round_mono [OF this] have "js_round (binary64 (of_int c * q)) \<le> c"
    by (simp only: js_round_of_int)
  moreover from js_round_nonneg [OF binary64_nonneg [OF lo]]
  have "0 \<le> js_round (binary64 (of_int c * q))" .
  ultimately show ?thesis by (simp add: amt q_def)
qed

subsection \<open>Phone normalization\<close>

lemma is_digit_simps: "is_digit c = (c = CHR ''0'' \<or> c = CHR ''1'' \<or> c = CHR ''2'' \<or> c = CHR ''3'' \<or> c = CHR ''4'' \<or> c = CHR ''5'' \<or> c = CHR ''6'' \<or> c = CHR ''7'' \<or> c = CHR ''8'' \<or> c = CHR ''9'')"
  by (auto simp: is_digit_def)


lemma strip_digits: "list_all is_digit (strip_non_digits s)"
  by (simp add: strip_non_digits_def list_all_iff)


lemma strip_non_digits_Nil [simp]: "strip_non_digits [] = []"
  by (simp add: strip_non_digits_def)

lemma formatPhoneNumber_cases:
  "formatPhoneNumber s =
     (let d = strip_non_digits s in
      if startsWith d ''0'' then (if length d = 10 then Some (''254'' @ drop 1 d) else None)
      else if startsWith d ''7'' \<or> startsWith d ''1'' then (if length d = 9 then Some (''254'' @ d) else None)
      else if startsWith d ''254'' then (if length d = 12 then Some d else None)
      else None)"
proof (cases "s = []")
  case True
  then show ?thesis by (simp add: formatPhoneNumber_def startsWith_def)
next
  case False
  show ?thesis
  proof (cases "strip_non_digits s")
    case Nil
    with False show ?thesis by (simp add: formatPhoneNumber_def startsWith_def)
  next
    case (Cons c cs)
    with False show ?thesis
      by (auto simp: formatPhoneNumber_def Let_def startsWith_def)
  qed
qed

lemma digits_254: "list_all is_digit ''254''"
  by (simp add: is_digit_def)

lemma formatPhoneNumber_rules:
  "(let d = strip_non_digits s in
      (startsWith d ''0'' \<longrightarrow>
         formatPhoneNumber s = (if length d = 10 then Some (''254'' @ drop 1 d) else None))
    \<and> (startsWith d ''7'' \<or> startsWith d ''1'' \<longrightarrow>
         formatPhoneNumber s = (if length d = 9 then Some (''254'' @ d) else None))
    \<and> (startsWith d ''254'' \<longrightarrow>
         formatPhoneNumber s = (if length d = 12 then Some d else None))
    \<and> (\<not> startsWith d ''0'' \<and> \<not> startsWith d ''7'' \<and> \<not> startsWith d ''1'' \<and> \<not> startsWith d ''254'' \<longrightarrow>
         formatPhoneNumber s = None))
   \<and> (\<forall>r. formatPhoneNumber s = Some r \<longrightarrow> length r = 12 \<and> list_all is_digit r)"
proof -
  define d where "d = strip_non_digits s"
  have dd: "list_all is_digit d" by (simp add: d_def strip_digits)
  have excl: "startsWith d ''254'' \<Longrightarrow> \<not> startsWith d ''0'' \<and> \<not> startsWith d ''7'' \<and> \<not> startsWith d ''1''"
    by (cases d) (auto simp: startsWith_def)
  have fmt: "formatPhoneNumber s =
      (if startsWith d ''0'' then (if length d = 10 then Some (''254'' @ drop 1 d) else None)
      else if startsWith d ''7'' \<or> startsWith d ''1'' then (if length d = 9 then Some (''254'' @ d) else None)
      else if startsWith d ''254'' then (if length d = 12 then Some d else None)
      else None)"
    by (simp add: formatPhoneNumber_cases d_def Let_def)
  have excl2: "startsWith d ''0'' \<Longrightarrow> \<not> startsWith d ''7'' \<and> \<not> startsWith d ''1''"
    by (cases d) (auto simp: startsWith_def)
  have drop_d: "list_all is_digit (drop 1 d)"
    using dd by (cases d) simp_all
  have a: "startsWith d ''0'' \<longrightarrow>
         formatPhoneNumber s = (if length d = 10 then Some (''254'' @ drop 1 d) else None)"
    by (simp add: fmt)
  have b: "startsWith d ''7'' \<or> startsWith d ''1'' \<longrightarrow>
         formatPhoneNumber s = (if length d = 9 then Some (''254'' @ d) else None)"
    using excl2 by (auto simp: fmt)
  have c: "startsWith d ''254'' \<longrightarrow>
         formatPhoneNumber s = (if length d = 12 then Some d else None)"
    using excl by (auto simp: fmt)
  have e: "\<not> startsWith d ''0'' \<and> \<not> startsWith d ''7'' \<and> \<not> startsWith d ''1'' \<and> \<not> startsWith d ''254'' \<longrightarrow>
         formatPhoneNumber s = None"
    by (simp add: fmt)
  have f: "\<forall>r. formatPhoneNumber s = Some r \<longrightarrow> length r = 12 \<and> list_all is_digit r"
  proof (intro allI impI)
    fix r assume r: "formatPhoneNumber s = Some r"
    then consider "r = ''254'' @ drop 1 d" "length d = 10"
      | "r = ''254'' @ d" "length d = 9"
      | "r = d" "length d = 12"
      unfolding fmt by (auto split: if_splits)
    then show "length r = 12 \<and> list_all is_digit r"
    proof cases
      case 1 then show ?thesis using drop_d digits_254 by simp
    next
      case 2 then show ?thesis using dd digits_254 by simp
    next
      case 3 then show ?thesis using dd by simp
    qed
  qed
  from a b c e f show ?thesis unfolding Let_def d_def [symmetric] by blast
qed


lemma formatPhoneNumber_examples:
  "formatPhoneNumber ''0712345678'' = Some ''254712345678''"
  "formatPhoneNumber ''712345678'' = Some ''254712345678''"
  "formatPhoneNumber ''254712345678'' = Some ''254712345678''"
  "formatPhoneNumber ''999'' = None"
  by (simp_all add: formatPhoneNumber_def strip_non_digits_def is_digit_simps startsWith_def)

lemma cleanPhoneNumber_examples:
  "cleanPhoneNumber (Some ''0712345678'') = Some ''254712345678''"
  "cleanPhoneNumber (Some ''712345678'') = Some ''254712345678''"
  "cleanPhoneNumber (Some ''254712345678'') = Some ''254712345678''"
  "cleanPhoneNumber (Some ''999'') = Some ''999''"
  by (simp_all add: cleanPhoneNumber_def strip_non_digits_def is_digit_simps startsWith_def)

lemma validatePhoneNumber_examples:
  "validatePhoneNumber (Some ''254712345678'')"
  "\<not> validatePhoneNumber (Some ''999'')"
  by (simp_all add: validatePhoneNumber_def phoneNumber_pattern_def is_digit_simps)

lemma phoneNumber_pattern_digits:
  assumes "phoneNumber_pattern r"
  shows "length r = 12 \<and> list_all is_digit r"
proof -
  from assms have len: "length r = 12" and pre: "take 3 r = ''254''"
    and mid: "r ! 3 = CHR ''1'' \<or> r ! 3 = CHR ''7''" and rest: "list_all is_digit (drop 4 r)"
    by (simp_all add: phoneNumber_pattern_def)
  have "3 < length r" using len by simp
  then have "drop 3 r = r ! 3 # drop (Suc 3) r" by (rule Cons_nth_drop_Suc [symmetric])
  then have d3: "drop 3 r = r ! 3 # drop 4 r" by simp
  have "list_all is_digit r = list_all is_digit (take 3 r @ drop 3 r)" by simp
  also have "\<dots> = (list_all is_digit (take 3 r) \<and> is_digit (r ! 3) \<and> list_all is_digit (drop 4 r))"
    unfolding d3 by simp
  finally have "list_all is_digit r = (list_all is_digit (take 3 r) \<and> is_digit (r ! 3) \<and> list_all is_digit (drop 4 r))" .
  moreover have "list_all is_digit (take 3 r)" by (simp add: pre is_digit_def)
  moreover have "is_digit (r ! 3)" using mid by (auto simp: is_digit_def)
  ultimately show ?thesis using len rest by simp
qed


lemma cleanPhoneNumber_rules:
  "s \<noteq> [] \<Longrightarrow> cleanPhoneNumber (Some s) =
     (let d = strip_non_digits s in
      Some (if startsWith d ''0'' then ''254'' @ drop 1 d
            else if startsWith d ''7'' \<or> startsWith d ''1'' then ''254'' @ d
            else d))"
  by (simp add: cleanPhoneNumber_def Let_def)

lemma cleanPhoneNumber_other_rejected:
  assumes "\<not> startsWith (strip_non_digits s) ''0''" and "\<not> startsWith (strip_non_digits s) ''7''"
    and "\<not> startsWith (strip_non_digits s) ''1''" and "\<not> startsWith (strip_non_digits s) ''254''"
  shows "\<not> validatePhoneNumber (cleanPhoneNumber (Some s))"
proof (cases "s = []")
  case True
  then show ?thesis by (simp add: cleanPhoneNumber_def validatePhoneNumber_def)
next
  case False
  with assms have "cleanPhoneNumber (Some s) = Some (strip_non_digits s)"
    by (simp add: cleanPhoneNumber_rules Let_def)
  moreover have "\<not> phoneNumber_pattern (strip_non_digits s)"
    using assms(4) by (simp add: phoneNumber_pattern_def startsWith_def numeral_3_eq_3)
  ultimately show ?thesis by (simp add: validatePhoneNumber_def)
qed

text \<open>
  C8. Phone normalization. With the non-digits stripped: a leading \<open>0\<close> is replaced by
  \<open>254\<close>, a leading \<open>7\<close> or \<open>1\<close> gets \<open>254\<close> prepended, a string that starts with
  \<open>254\<close> is left as it is, and every other form is rejected; whatever is accepted has
  exactly 12 digits. This holds of \<^verbatim>\<open>formatPhoneNumber\<close>, and of
  \<^verbatim>\<open>sanitize.cleanPhoneNumber\<close> followed by \<^verbatim>\<open>validate.validatePhoneNumber\<close> as the
  payment route applies them. \<open>0712345678\<close> and \<open>712345678\<close> become \<open>254712345678\<close>,
  which itself is unchanged, and \<open>999\<close> is rejected.
\<close>

theorem phone_normalization:
  "(let d = strip_non_digits s in
      (startsWith d ''0'' \<longrightarrow>
         formatPhoneNumber s = (if length d = 10 then Some (''254'' @ drop 1 d) else None))
    \<and> (startsWith d ''7'' \<or> startsWith d ''1'' \<longrightarrow>
         formatPhoneNumber s = (if length d = 9 then Some (''254'' @ d) else None))
    \<and> (startsWith d ''254'' \<longrightarrow>
         formatPhoneNumber s = (if length d = 12 then Some d else None))
    \<and> (\<not> startsWith d ''0'' \<and> \<not> startsWith d ''7'' \<and> \<not> startsWith d ''1'' \<and> \<not> startsWith d ''254'' \<longrightarrow>
         formatPhoneNumber s = None \<and> \<not> validatePhoneNumber (cleanPhoneNumber (Some s))))
   \<and> (\<forall>r. formatPhoneNumber s = Some r \<longrightarrow> length r = 12 \<and> list_all is_digit r)
   \<and> (\<forall>r. cleanPhoneNumber (Some s) = Some r \<and> validatePhoneNumber (Some r) \<longrightarrow>
          length r = 12 \<and> list_all is_digit r)
   \<and> formatPhoneNumber ''0712345678'' = Some ''254712345678''
   \<and> formatPhoneNumber ''712345678'' = Some ''254712345678''
   \<and> formatPhoneNumber ''254712345678'' = Some ''254712345678''
   \<and> formatPhoneNumber ''999'' = None
   \<and> cleanPhoneNumber (Some ''0712345678'') = Some ''254712345678''
   \<and> cleanPhoneNumber (Some ''712345678'') = Some ''254712345678''
   \<and> cleanPhoneNumber (Some ''254712345678'') = Some ''254712345678''
   \<and> validatePhoneNumber (Some ''254712345678'')
   \<and> \<not> validatePhoneNumber (cleanPhoneNumber (Some ''999''))"
proof -
  have v: "\<forall>r. cleanPhoneNumber (Some s) = Some r \<and> validatePhoneNumber (Some r) \<longrightarrow>
          length r = 12 \<and> list_all is_digit r"
    by (simp add: validatePhoneNumber_def phoneNumber_pattern_digits)
  have n: "\<not> validatePhoneNumber (cleanPhoneNumber (Some ''999''))"
    by (simp add: cleanPhoneNumber_examples validatePhoneNumber_examples)
  show ?thesis
    using formatPhoneNumber_rules [of s] cleanPhoneNumber_other_rejected [of s] v n
    unfolding Let_def
    by (simp only: formatPhoneNumber_examples cleanPhoneNumber_examples validatePhoneNumber_examples) blast
qed

theorem phone_normalization_witness:
  "startsWith (strip_non_digits ''+254 712-345-678'') ''254''
   \<and> formatPhoneNumber ''+254 712-345-678'' = Some ''254712345678''
   \<and> startsWith (strip_non_digits ''0712 345 678'') ''0''
   \<and> formatPhoneNumber ''0712 345 678'' = Some ''254712345678''
   \<and> startsWith (strip_non_digits ''712345678'') ''7''
   \<and> formatPhoneNumber ''712345678'' = Some ''254712345678''
   \<and> \<not> startsWith (strip_non_digits ''999'') ''0'' \<and> \<not> startsWith (strip_non_digits ''999'') ''7''
   \<and> \<not> startsWith (strip_non_digits ''999'') ''1'' \<and> \<not> startsWith (strip_non_digits ''999'') ''254''
   \<and> formatPhoneNumber ''999'' = None
   \<and> length ''254712345678'' = 12 \<and> list_all is_digit ''254712345678''"
proof -
  have s1: "strip_non_digits ''+254 712-345-678'' = ''254712345678''"
    and s2: "strip_non_digits ''0712 345 678'' = ''0712345678''"
    and s3: "strip_non_digits ''712345678'' = ''712345678''"
    and s4: "strip_non_digits ''999'' = ''999''"
    by (simp_all add: strip_non_digits_def is_digit_simps)
  show ?thesis
    using phone_normalization [of "''+254 712-345-678''"] phone_normalization [of "''0712 345 678''"]
      phone_normalization [of "''712345678''"] phone_normalization [of "''999''"]
    unfolding Let_def s1 s2 s3 s4
    by (simp add: startsWith_def is_digit_simps)
qed

subsection \<open>Gateway client\<close>

lemma try_catch_returns:
  "(\<And>e. \<exists>v. handler e = Returns v) \<Longrightarrow> \<exists>v s. try_catch body handler = (Returns v, s)"
  by (cases body; cases "fst body") (auto simp: try_catch_def split: outcome.splits)

lemma try_catch_thrown:
  "fst body = Throws e \<Longrightarrow> fst (try_catch body handler) = handler e"
  by (cases body) (simp add: try_catch_def)

lemma failure_of_cases:
  "failure_of generic e =
     GatewayFailure
       (case err_response_data e of
          None \<Rightarrow> JStr generic
        | Some d \<Rightarrow> if truthy (pf_errorMessage d) then pf_errorMessage d else JStr generic)
       (case err_response_data e of
          None \<Rightarrow> JStr ''UNKNOWN_ERROR''
        | Some d \<Rightarrow> if truthy (pf_errorCode d) then pf_errorCode d else JStr ''UNKNOWN_ERROR'')"
  by (simp add: failure_of_def js_or_def split: option.splits)

text \<open>
  C9. Gateway boundary: whatever the network does, \<^verbatim>\<open>stkPush\<close> and \<^verbatim>\<open>stkPushQuery\<close>
  return and never throw; when anything inside fails, the result is the failure object
  (\<^verbatim>\<open>success: false\<close>) with the provider's message when there is one and the generic
  message otherwise, and with the provider's error code or \<^verbatim>\<open>UNKNOWN_ERROR\<close>.
\<close>

theorem gateway_never_throws:
  "(\<exists>r s'. stkPush net s phoneNumber totalAmount accountReference transactionDesc = (Returns r, s'))
   \<and> (\<forall>e. fst (stkPush_try net s phoneNumber totalAmount accountReference transactionDesc) = Throws e \<longrightarrow>
         fst (stkPush net s phoneNumber totalAmount accountReference transactionDesc) =
           Returns (GatewayFailure
             (case err_response_data e of
                None \<Rightarrow> JStr ''STK Push request failed''
              | Some d \<Rightarrow> if truthy (pf_errorMessage d) then pf_errorMessage d
                          else JStr ''STK Push request failed'')
             (case err_response_data e of
                None \<Rightarrow> JStr ''UNKNOWN_ERROR''
              | Some d \<Rightarrow> if truthy (pf_errorCode d) then pf_errorCode d else JStr ''UNKNOWN_ERROR'')))
   \<and> (\<exists>r s'. stkPushQuery net s checkoutRequestId = (Returns r, s'))
   \<and> (\<forall>e. fst (stkPushQuery_try net s checkoutRequestId) = Throws e \<longrightarrow>
         fst (stkPushQuery net s checkoutRequestId) =
           Returns (GatewayFailure
             (case err_response_data e of
                None \<Rightarrow> JStr ''STK Push query failed''
              | Some d \<Rightarrow> if truthy (pf_errorMessage d) then pf_errorMessage d
                          else JStr ''STK Push query failed'')
             (case err_response_data e of
                None \<Rightarrow> JStr ''UNKNOWN_ERROR''
              | Some d \<Rightarrow> if truthy (pf_errorCode d) then pf_errorCode d else JStr ''UNKNOWN_ERROR'')))"
proof -
  have a: "\<exists>r s'. stkPush net s phoneNumber totalAmount accountReference transactionDesc = (Returns r, s')"
    unfolding stkPush_def by (rule try_catch_returns) simp
  have b: "\<exists>r s'. stkPushQuery net s checkoutRequestId = (Returns r, s')"
    unfolding stkPushQuery_def by (rule try_catch_returns) simp
  show ?thesis
    using a b
    by (simp add: stkPush_def stkPushQuery_def try_catch_thrown failure_of_cases)
qed

lemma rejecting_push_thrown:
  "fst (stkPush_try rejecting_network sandbox_service (Some ''254712345678'') 102 ''MOBI1'' ''Fare'') =
     Throws \<lparr> err_message = ''Request failed with status code 400'',
              err_response_data = Some \<lparr> pf_errorMessage = JStr ''Invalid PhoneNumber'',
                                         pf_errorCode = JStr ''400.002.02'' \<rparr> \<rparr>"
  by (simp add: stkPush_try_def generateAccessToken_def try_catch_def rejecting_network_def
      sandbox_service_def new_MpesaService_def generatePassword_def Let_def)

lemma rejecting_query_thrown:
  "fst (stkPushQuery_try rejecting_network sandbox_service ''ws_CO_1'') =
     Throws \<lparr> err_message = ''Request failed with status code 400'',
              err_response_data = Some \<lparr> pf_errorMessage = JStr ''Invalid PhoneNumber'',
                                         pf_errorCode = JStr ''400.002.02'' \<rparr> \<rparr>"
  by (simp add: stkPushQuery_try_def generateAccessToken_def try_catch_def rejecting_network_def
      sandbox_service_def new_MpesaService_def generatePassword_def Let_def)

theorem gateway_never_throws_witness:
  "fst (stkPush rejecting_network sandbox_service (Some ''254712345678'') 102 ''MOBI1'' ''Fare'') =
     Returns (GatewayFailure (JStr ''Invalid PhoneNumber'') (JStr ''400.002.02''))
   \<and> fst (stkPushQuery rejecting_network sandbox_service ''ws_CO_1'') =
     Returns (GatewayFailure (JStr ''Invalid PhoneNumber'') (JStr ''400.002.02''))"
  using gateway_never_throws [of rejecting_network sandbox_service "Some ''254712345678''" 102
      "''MOBI1''" "''Fare''" "''ws_CO_1''"]
  by (simp add: rejecting_push_thrown rejecting_query_thrown)

subsection \<open>Callback route\<close>

lemma list_all2_update_where:
  assumes "\<And>t. t \<in> set rows \<Longrightarrow> R t t" and "\<And>t. t \<in> set rows \<Longrightarrow> cond t \<Longrightarrow> R t (change t)"
  shows "list_all2 R rows (update_where cond change rows)"
  using assms by (induction rows) (simp_all add: update_where_def)


lemma find_None_iff': "find P xs = None \<longleftrightarrow> (\<forall>x \<in> set xs. \<not> P x)"
  by (induction xs) auto

lemma processCallback_checkout:
  "cr_checkoutRequestId (fst (processCallback (Some cb))) = cb_CheckoutRequestID cb
   \<or> cr_checkoutRequestId (fst (processCallback (Some cb))) = None"
  by (simp add: processCallback_def Let_def invalid_callback_format_def split: option.splits)


lemma handleCallback_valid:
  assumes "cv_isValid (validateCallback body)"
  shows "handleCallback env db body =
     (let received = [ConsoleLog ''M-Pesa Callback received:''];
          callbackResult = fst (processCallback body);
          processed = snd (processCallback body)
      in if db_fails env FindByCheckout then
                (db, (500, CallbackError (Some ''Database error'')),
                 received @ processed @ [ConsoleError ''Database error in callback:''])
              else
                case find (\<lambda>t. sql_eq (checkout_request_id t) (cr_checkoutRequestId callbackResult))
                       (transactions db) of
                  None \<Rightarrow>
                    (db, (404, CallbackError (Some ''Transaction not found'')),
                     received @ processed @ [ConsoleError ''Transaction not found for checkout ID:''])
                | Some row \<Rightarrow>
                    let newStatus = (if cr_success callbackResult then COMPLETED else FAILED)
                    in if db_fails env UpdateCallback then
                         (db, (500, CallbackError (Some ''Update failed'')),
                          received @ processed @ [ConsoleError ''Transaction update error:''])
                       else
                         (db\<lparr> transactions :=
                               update_where (\<lambda>t. transaction_id t = transaction_id row)
                                 (\<lambda>t. t\<lparr> status := newStatus,
                                         mpesa_receipt_number :=
                                           sql_text (cr_mpesaReceiptNumber callbackResult),
                                         updated_at := current_timestamp env \<rparr>)
                                 (transactions db) \<rparr>,
                          (200, CallbackProcessed),
                          received @ processed
                            @ [ConsoleLog (''Transaction '' @ transaction_id row @ '' updated to ''
                                            @ status_text newStatus)]))"
  using assms by (simp add: handleCallback_def Let_def case_prod_beta)

text \<open>
  C2, as stated, has the callback for an unknown checkout identifier acknowledged as
  received. The route answers 404 with an error body instead: here a valid callback
  arrives at a ledger that holds no transaction.
\<close>

theorem unknown_checkout_counterexample:
  "cv_isValid (validateCallback (Some (callback_for ''ws_CO_9'' (JNum 0))))
   \<and> Some ''ws_CO_9'' \<notin> set (map checkout_request_id (transactions seeded_database))
   \<and> \<not> acknowledges_receipt
        (fst (snd (handleCallback sound_server seeded_database (Some (callback_for ''ws_CO_9'' (JNum 0))))))"
proof -
  have v: "cv_isValid (validateCallback (Some (callback_for ''ws_CO_9'' (JNum 0))))"
    by (simp add: validateCallback_def callback_for_def field_missing_def str_field_def)
  have "fst (snd (handleCallback sound_server seeded_database (Some (callback_for ''ws_CO_9'' (JNum 0)))))
        = (404, CallbackError (Some ''Transaction not found''))"
    by (simp add: handleCallback_valid [OF v] Let_def sound_server_def seeded_database_def)
  then show ?thesis
    using v by (simp add: acknowledges_receipt_def seeded_database_def)
qed

text \<open>
  C2 (amended). When a structurally valid callback names a checkout identifier that no
  stored transaction has (and the lookup itself succeeds), the ledger is left unchanged,
  the event is written to the error log, and the response is 404 with the error
  \<^verbatim>\<open>Transaction not found\<close>, which is not a success acknowledgment.
\<close>

theorem unknown_checkout_not_found:
  assumes "cv_isValid (validateCallback (Some cb))"
    and "\<not> db_fails env FindByCheckout"
    and "cb_CheckoutRequestID cb \<notin> set (map checkout_request_id (transactions db))"
  shows "\<exists>log. handleCallback env db (Some cb) =
            (db, (404, CallbackError (Some ''Transaction not found'')), log)
          \<and> ConsoleError ''Transaction not found for checkout ID:'' \<in> set log
          \<and> \<not> acknowledges_receipt (fst (snd (handleCallback env db (Some cb))))"
proof -
  have "\<not> sql_eq (checkout_request_id t) (cr_checkoutRequestId (fst (processCallback (Some cb))))"
    if "t \<in> set (transactions db)" for t
  proof -
    from that assms(3) have "checkout_request_id t \<noteq> cb_CheckoutRequestID cb" by force
    then show ?thesis
      using processCallback_checkout [of cb]
      by (auto simp: sql_eq_def split: option.splits)
  qed
  then have "find (\<lambda>t. sql_eq (checkout_request_id t) (cr_checkoutRequestId (fst (processCallback (Some cb)))))
               (transactions db) = None"
    by (simp add: find_None_iff')
  then show ?thesis
    using assms(2) by (simp add: handleCallback_valid [OF assms(1)] Let_def acknowledges_receipt_def)
qed

theorem unknown_checkout_not_found_witness:
  "cv_isValid (validateCallback (Some (callback_for ''ws_CO_9'' (JNum 0))))
   \<and> \<not> db_fails sound_server FindByCheckout
   \<and> cb_CheckoutRequestID (callback_for ''ws_CO_9'' (JNum 0))
       \<notin> set (map checkout_request_id (transactions settled_database))
   \<and> (\<exists>log. handleCallback sound_server settled_database (Some (callback_for ''ws_CO_9'' (JNum 0))) =
            (settled_database, (404, CallbackError (Some ''Transaction not found'')), log)
          \<and> ConsoleError ''Transaction not found for checkout ID:'' \<in> set log)"
proof -
  have v: "cv_isValid (validateCallback (Some (callback_for ''ws_CO_9'' (JNum 0))))"
    by (simp add: validateCallback_def callback_for_def field_missing_def str_field_def)
  have f: "\<not> db_fails sound_server FindByCheckout" by (simp add: sound_server_def)
  have n: "cb_CheckoutRequestID (callback_for ''ws_CO_9'' (JNum 0))
       \<notin> set (map checkout_request_id (transactions settled_database))"
    by (simp add: callback_for_def settled_database_def stored_payment_def)
  from unknown_checkout_not_found [OF v f n] v f n show ?thesis by blast
qed

subsection \<open>Status transitions\<close>

lemma same_but_settlement_update:
  "same_but_settlement t (t\<lparr> status := s, mpesa_receipt_number := r, updated_at := u \<rparr>)"
  by (simp add: same_but_settlement_def)

lemma update_rows:
  assumes "s \<noteq> PENDING"
  shows "list_all2 (\<lambda>t t'. t' = t \<or> (same_but_settlement t t' \<and> status t' \<noteq> PENDING))
     rows (update_where cond (\<lambda>t. t\<lparr> status := s, mpesa_receipt_number := r, updated_at := u \<rparr>) rows)"
  using assms by (intro list_all2_update_where) (simp_all add: same_but_settlement_def)

lemma callback_rows:
  "list_all2 (\<lambda>t t'. t' = t \<or> (same_but_settlement t t' \<and> status t' \<noteq> PENDING))
     (transactions db) (transactions (fst (handleCallback env db body)))"
proof (cases "cv_isValid (validateCallback body)")
  case False
  then show ?thesis by (simp add: handleCallback_def Let_def list_all2_same)
next
  case True
  note valid = handleCallback_valid [OF True]
  show ?thesis
  proof (cases "find (\<lambda>t. sql_eq (checkout_request_id t) (cr_checkoutRequestId (fst (processCallback body))))
                  (transactions db)")
    case None
    then show ?thesis unfolding valid Let_def by (simp add: list_all2_same)
  next
    case (Some row)
    have "(if cr_success (fst (processCallback body)) then COMPLETED else FAILED) \<noteq> PENDING"
      by simp
    note rows = update_rows [OF this]
    show ?thesis
      unfolding valid Let_def using Some by (simp add: list_all2_same rows)
  qed
qed





lemma getStatus_not_found:
  "find (\<lambda>t. transaction_id t = x) (transactions db) = None \<Longrightarrow> st_db (getStatus env net svc db x) = db"
  by (simp add: getStatus_def)

lemma getStatus_found:
  assumes "find (\<lambda>t. transaction_id t = x) (transactions db) = Some tr"
  shows "st_db (getStatus env net svc db x) = db
    \<or> (status tr = PENDING \<and>
        (\<exists>s. s \<noteq> PENDING \<and> st_db (getStatus env net svc db x) =
           db\<lparr> transactions := update_where (\<lambda>t. transaction_id t = x)
                  (\<lambda>t. t\<lparr> status := s, updated_at := current_timestamp env \<rparr>) (transactions db) \<rparr>))"
proof (cases "db_fails env ReadTransaction")
  case True
  then show ?thesis by (simp add: getStatus_def)
next
  case False
  show ?thesis
  proof (cases "if status tr = PENDING then or_null (checkout_request_id tr) else None")
    case None
    with False assms show ?thesis by (simp add: getStatus_def)
  next
    case (Some checkoutId)
    then have pend: "status tr = PENDING" by (simp split: if_splits)
    obtain out svc' where q: "stkPushQuery net svc checkoutId = (out, svc')" by (cases "stkPushQuery net svc checkoutId")
    show ?thesis
    proof (cases out)
      case (Throws e)
      with False assms Some q show ?thesis by (simp add: getStatus_def)
    next
      case (Returns res)
      show ?thesis
      proof (cases res)
        case (GatewayFailure m c)
        with False assms Some q Returns show ?thesis by (simp add: getStatus_def)
      next
        case (GatewaySuccess d)
        show ?thesis
        proof (cases "sq_resultCode d \<noteq> JUndefined \<and> \<not> db_fails env UpdateStatus")
          case False
          with \<open>\<not> db_fails env ReadTransaction\<close> assms Some q Returns GatewaySuccess show ?thesis
            by (auto simp: getStatus_def Let_def)
        next
          case True
          define s where "s = (if sq_resultCode d = JNum 0 then COMPLETED else FAILED)"
          have sn: "s \<noteq> PENDING" by (simp add: s_def)
          have "st_db (getStatus env net svc db x) =
              db\<lparr> transactions := update_where (\<lambda>t. transaction_id t = x)
                  (\<lambda>t. t\<lparr> status := s, updated_at := current_timestamp env \<rparr>) (transactions db) \<rparr>"
            using True \<open>\<not> db_fails env ReadTransaction\<close> assms Some q Returns GatewaySuccess
            by (simp add: getStatus_def Let_def s_def)
          with sn pend show ?thesis by - (rule disjI2, rule conjI, assumption, rule exI [where x = s], simp)
        qed
      qed
    qed
  qed
qed








text \<open>
  C7. Poll path of the status route. The gateway is queried only for a transaction that is
  \<open>PENDING\<close> and has a non-empty checkout identifier, and then once, with that identifier.
  When the query returns a result code, the status becomes \<open>COMPLETED\<close> for the number 0
  and \<open>FAILED\<close> for any other code, in the response and (the \<^verbatim>\<open>UPDATE\<close> succeeding) in
  the ledger. A transaction that is not \<open>PENDING\<close> is returned as stored: no query, no
  update.
\<close>

theorem poll_reconciliation:
  "(st_queried (getStatus env net svc db x) \<noteq> [] \<longrightarrow>
      (\<exists>t c. find (\<lambda>t. transaction_id t = x) (transactions db) = Some t \<and> status t = PENDING
             \<and> checkout_request_id t = Some c \<and> c \<noteq> []
             \<and> st_queried (getStatus env net svc db x) = [c]))
   \<and> (\<not> db_fails env ReadTransaction
        \<and> find (\<lambda>t. transaction_id t = x) (transactions db) = Some t
        \<and> status t = PENDING \<and> checkout_request_id t = Some c \<and> c \<noteq> []
        \<and> fst (stkPushQuery net svc c) = Returns (GatewaySuccess d)
        \<and> sq_resultCode d \<noteq> JUndefined
      \<longrightarrow>
        st_queried (getStatus env net svc db x) = [c]
        \<and> st_response (getStatus env net svc db x) =
            Some (status_response db
                    (t\<lparr> status := (if sq_resultCode d = JNum 0 then COMPLETED else FAILED) \<rparr>))
        \<and> (\<not> db_fails env UpdateStatus \<longrightarrow>
              transactions (st_db (getStatus env net svc db x)) =
                map (\<lambda>r. if transaction_id r = x
                          then r\<lparr> status := (if sq_resultCode d = JNum 0 then COMPLETED else FAILED),
                                  updated_at := current_timestamp env \<rparr>
                          else r)
                  (transactions db)))
   \<and> (\<not> db_fails env ReadTransaction
        \<and> find (\<lambda>t. transaction_id t = x) (transactions db) = Some t
        \<and> status t \<noteq> PENDING
      \<longrightarrow>
        st_queried (getStatus env net svc db x) = []
        \<and> st_db (getStatus env net svc db x) = db
        \<and> st_response (getStatus env net svc db x) = Some (status_response db t))"
proof -
  have a: "st_queried (getStatus env net svc db x) \<noteq> [] \<longrightarrow>
      (\<exists>t c. find (\<lambda>t. transaction_id t = x) (transactions db) = Some t \<and> status t = PENDING
             \<and> checkout_request_id t = Some c \<and> c \<noteq> []
             \<and> st_queried (getStatus env net svc db x) = [c])"
    by (auto simp: getStatus_def Let_def or_null_def
        split: option.splits if_splits prod.splits outcome.splits gateway_result.splits)
  have b: "st_queried (getStatus env net svc db x) = [c]
        \<and> st_response (getStatus env net svc db x) =
            Some (status_response db
                    (t\<lparr> status := (if sq_resultCode d = JNum 0 then COMPLETED else FAILED) \<rparr>))
        \<and> (\<not> db_fails env UpdateStatus \<longrightarrow>
              transactions (st_db (getStatus env net svc db x)) =
                map (\<lambda>r. if transaction_id r = x
                          then r\<lparr> status := (if sq_resultCode d = JNum 0 then COMPLETED else FAILED),
                                  updated_at := current_timestamp env \<rparr>
                          else r)
                  (transactions db))"
    if h: "\<not> db_fails env ReadTransaction"
      "find (\<lambda>t. transaction_id t = x) (transactions db) = Some t"
      "status t = PENDING" "checkout_request_id t = Some c" "c \<noteq> []"
      "fst (stkPushQuery net svc c) = Returns (GatewaySuccess d)"
      "sq_resultCode d \<noteq> JUndefined"
  proof -
    obtain svc' where q: "stkPushQuery net svc c = (Returns (GatewaySuccess d), svc')"
      using h(6) by (cases "stkPushQuery net svc c") simp
    show ?thesis
      using h(1-5) h(7) q
      by (simp add: getStatus_def Let_def or_null_def update_where_def)
  qed
  have c: "st_queried (getStatus env net svc db x) = []
        \<and> st_db (getStatus env net svc db x) = db
        \<and> st_response (getStatus env net svc db x) = Some (status_response db t)"
    if "\<not> db_fails env ReadTransaction"
      "find (\<lambda>t. transaction_id t = x) (transactions db) = Some t" "status t \<noteq> PENDING"
    using that by (simp add: getStatus_def)
  from a b c show ?thesis by blast
qed


lemma reporting_query:
  "fst (stkPushQuery (reporting_network resultCode) sandbox_service checkoutId) =
     Returns (GatewaySuccess (reported resultCode))"
  by (simp add: reported_def stkPushQuery_def stkPushQuery_try_def try_catch_def generateAccessToken_def
      reporting_network_def sandbox_service_def new_MpesaService_def generatePassword_def
      accepted_def Let_def)


lemma pend_facts:
  "\<not> db_fails sound_server ReadTransaction" "\<not> db_fails sound_server UpdateStatus"
  "find (\<lambda>t. transaction_id t = ''MOBI1'') (transactions pending_database) = Some (stored_payment PENDING None)"
  "status (stored_payment PENDING None) = PENDING"
  "checkout_request_id (stored_payment PENDING None) = Some ''ws_CO_1''"
  "transactions pending_database = [stored_payment PENDING None]"
  "transaction_id (stored_payment PENDING None) = ''MOBI1''"
  by (simp_all add: sound_server_def pending_database_def stored_payment_def)

theorem poll_reconciliation_witness:
  "\<not> db_fails sound_server ReadTransaction \<and> \<not> db_fails sound_server UpdateStatus
   \<and> find (\<lambda>t. transaction_id t = ''MOBI1'') (transactions pending_database) = Some (stored_payment PENDING None)
   \<and> status (stored_payment PENDING None) = PENDING
   \<and> checkout_request_id (stored_payment PENDING None) = Some ''ws_CO_1''
   \<and> fst (stkPushQuery (reporting_network (JNum 0)) sandbox_service ''ws_CO_1'')
        = Returns (GatewaySuccess (reported (JNum 0)))
   \<and> st_queried (getStatus sound_server (reporting_network (JNum 0)) sandbox_service pending_database ''MOBI1'')
        = [''ws_CO_1'']
   \<and> map status (transactions (st_db
        (getStatus sound_server (reporting_network (JNum 0)) sandbox_service pending_database ''MOBI1'')))
        = [COMPLETED]
   \<and> map status (transactions (st_db
        (getStatus sound_server (reporting_network (JNum 1032)) sandbox_service pending_database ''MOBI1'')))
        = [FAILED]
   \<and> find (\<lambda>t. transaction_id t = ''MOBI1'') (transactions settled_database)
        = Some (stored_payment COMPLETED (Some ''OKL1A2B3C4''))
   \<and> status (stored_payment COMPLETED (Some ''OKL1A2B3C4'')) \<noteq> PENDING
   \<and> st_queried (getStatus sound_server (reporting_network (JNum 1032)) sandbox_service settled_database ''MOBI1'')
        = []
   \<and> st_db (getStatus sound_server (reporting_network (JNum 1032)) sandbox_service settled_database ''MOBI1'')
        = settled_database"
proof -
  have premA: "\<not> db_fails sound_server ReadTransaction
        \<and> find (\<lambda>t. transaction_id t = ''MOBI1'') (transactions pending_database) = Some (stored_payment PENDING None)
        \<and> status (stored_payment PENDING None) = PENDING
        \<and> checkout_request_id (stored_payment PENDING None) = Some ''ws_CO_1'' \<and> ''ws_CO_1'' \<noteq> []
        \<and> fst (stkPushQuery (reporting_network (JNum 0)) sandbox_service ''ws_CO_1'')
            = Returns (GatewaySuccess (reported (JNum 0)))
        \<and> sq_resultCode (reported (JNum 0)) \<noteq> JUndefined"
    by (simp add: pend_facts(1-5) reporting_query reported_def)
  note prA = poll_reconciliation [of sound_server "reporting_network (JNum 0)" sandbox_service
      pending_database "''MOBI1''" "stored_payment PENDING None" "''ws_CO_1''" "reported (JNum 0)",
      THEN conjunct2, THEN conjunct1, THEN mp, OF premA]
  have rcA: "(if sq_resultCode (reported (JNum 0)) = JNum 0 then COMPLETED else FAILED) = COMPLETED"
    by (simp add: reported_def)
  from prA have qA: "st_queried (getStatus sound_server (reporting_network (JNum 0)) sandbox_service
      pending_database ''MOBI1'') = [''ws_CO_1'']"
    by (rule conjunct1)
  from prA pend_facts(2)
  have "transactions (st_db (getStatus sound_server (reporting_network (JNum 0)) sandbox_service
           pending_database ''MOBI1'')) =
     map (\<lambda>r. if transaction_id r = ''MOBI1''
               then r\<lparr> status := (if sq_resultCode (reported (JNum 0)) = JNum 0 then COMPLETED else FAILED),
                       updated_at := current_timestamp sound_server \<rparr>
               else r)
       (transactions pending_database)"
    by blast
  then have mA: "map status (transactions (st_db
        (getStatus sound_server (reporting_network (JNum 0)) sandbox_service pending_database ''MOBI1'')))
        = [COMPLETED]"
    by (simp add: rcA pend_facts(6,7))
  have premB: "\<not> db_fails sound_server ReadTransaction
        \<and> find (\<lambda>t. transaction_id t = ''MOBI1'') (transactions pending_database) = Some (stored_payment PENDING None)
        \<and> status (stored_payment PENDING None) = PENDING
        \<and> checkout_request_id (stored_payment PENDING None) = Some ''ws_CO_1'' \<and> ''ws_CO_1'' \<noteq> []
        \<and> fst (stkPushQuery (reporting_network (JNum 1032)) sandbox_service ''ws_CO_1'')
            = Returns (GatewaySuccess (reported (JNum 1032)))
        \<and> sq_resultCode (reported (JNum 1032)) \<noteq> JUndefined"
    by (simp add: pend_facts(1-5) reporting_query reported_def)
  note prB = poll_reconciliation [of sound_server "reporting_network (JNum 1032)" sandbox_service
      pending_database "''MOBI1''" "stored_payment PENDING None" "''ws_CO_1''" "reported (JNum 1032)",
      THEN conjunct2, THEN conjunct1, THEN mp, OF premB]
  have rcB: "(if sq_resultCode (reported (JNum 1032)) = JNum 0 then COMPLETED else FAILED) = FAILED"
    by (simp add: reported_def)
  from prB have qB: "st_queried (getStatus sound_server (reporting_network (JNum 1032)) sandbox_service
      pending_database ''MOBI1'') = [''ws_CO_1'']"
    by (rule conjunct1)
  from prB pend_facts(2)
  have "transactions (st_db (getStatus sound_server (reporting_network (JNum 1032)) sandbox_service
           pending_database ''MOBI1'')) =
     map (\<lambda>r. if transaction_id r = ''MOBI1''
               then r\<lparr> status := (if sq_resultCode (reported (JNum 1032)) = JNum 0 then COMPLETED else FAILED),
                       updated_at := current_timestamp sound_server \<rparr>
               else r)
       (transactions pending_database)"
    by blast
  then have mB: "map status (transactions (st_db
        (getStatus sound_server (reporting_network (JNum 1032)) sandbox_service pending_database ''MOBI1'')))
        = [FAILED]"
    by (simp add: rcB pend_facts(6,7))
  have s: "find (\<lambda>t. transaction_id t = ''MOBI1'') (transactions settled_database)
        = Some (stored_payment COMPLETED (Some ''OKL1A2B3C4''))"
    "status (stored_payment COMPLETED (Some ''OKL1A2B3C4'')) \<noteq> PENDING"
    by (simp_all add: settled_database_def stored_payment_def)
  have premC: "\<not> db_fails sound_server ReadTransaction
        \<and> find (\<lambda>t. transaction_id t = ''MOBI1'') (transactions settled_database)
            = Some (stored_payment COMPLETED (Some ''OKL1A2B3C4''))
        \<and> status (stored_payment COMPLETED (Some ''OKL1A2B3C4'')) \<noteq> PENDING"
    using s pend_facts(1) by simp
  note prC = poll_reconciliation [of sound_server "reporting_network (JNum 1032)" sandbox_service
      settled_database "''MOBI1''" "stored_payment COMPLETED (Some ''OKL1A2B3C4'')" c d,
      THEN conjunct2, THEN conjunct2, THEN mp, OF premC]
  from prC have c: "st_queried (getStatus sound_server (reporting_network (JNum 1032)) sandbox_service
        settled_database ''MOBI1'') = []
   \<and> st_db (getStatus sound_server (reporting_network (JNum 1032)) sandbox_service settled_database ''MOBI1'')
        = settled_database"
    by blast
  from premA qA mA mB s c pend_facts(2) show ?thesis by blast
qed

subsection \<open>Transaction identifiers stay unique\<close>

text \<open>
  The \<^verbatim>\<open>UNIQUE\<close> constraint on \<^verbatim>\<open>transaction_id\<close> is kept by the three routes: the two
  settlement routes leave the identifiers (and the amounts and shares) of all rows as they
  are, and the payment route only appends a row whose identifier is new.
\<close>

lemma same_but_settlement_fields:
  assumes "same_but_settlement t t'"
  shows "transaction_id t' = transaction_id t \<and> amount t' = amount t
    \<and> transaction_charge t' = transaction_charge t \<and> total_amount t' = total_amount t
    \<and> owner_share t' = owner_share t \<and> developer_share t' = developer_share t
    \<and> checkout_request_id t' = checkout_request_id t"
proof -
  define u where "u = t'\<lparr> status := status t, mpesa_receipt_number := mpesa_receipt_number t,
          updated_at := updated_at t \<rparr>"
  have "u = t" using assms by (simp add: same_but_settlement_def u_def)
  moreover have "transaction_id u = transaction_id t'" "amount u = amount t'"
    "transaction_charge u = transaction_charge t'" "total_amount u = total_amount t'"
    "owner_share u = owner_share t'" "developer_share u = developer_share t'"
    "checkout_request_id u = checkout_request_id t'"
    by (simp_all add: u_def)
  ultimately show ?thesis by simp
qed

lemma list_all2_ids:
  "list_all2 (\<lambda>t t'. transaction_id t' = transaction_id t) rows rows' \<Longrightarrow>
     map transaction_id rows' = map transaction_id rows"
  by (induction rule: list_all2_induct) simp_all

lemma handleCallback_ids:
  "map transaction_id (transactions (fst (handleCallback env db body))) = map transaction_id (transactions db)"
proof -
  from callback_rows [of db env body]
  have "list_all2 (\<lambda>t t'. transaction_id t' = transaction_id t)
          (transactions db) (transactions (fst (handleCallback env db body)))"
    by (rule list_all2_mono) (auto dest: same_but_settlement_fields)
  then show ?thesis by (rule list_all2_ids)
qed

lemma update_where_ids:
  assumes "\<And>t. transaction_id (change t) = transaction_id t"
  shows "map transaction_id (update_where cond change rows) = map transaction_id rows"
  using assms by (induction rows) (simp_all add: update_where_def)

lemma getStatus_ids:
  "map transaction_id (transactions (st_db (getStatus env net svc db x))) = map transaction_id (transactions db)"
proof (cases "find (\<lambda>t. transaction_id t = x) (transactions db)")
  case None
  then show ?thesis by (simp add: getStatus_not_found)
next
  case (Some tr)
  from getStatus_found [OF Some, of env net svc] show ?thesis
    by (auto simp: update_where_ids)
qed

lemma logSplitExecution_ids:
  "logSplitExecution env db x sd = Some db' \<Longrightarrow>
     map transaction_id (transactions db') = map transaction_id (transactions db)"
  by (auto simp: logSplitExecution_def update_where_ids split: if_splits)

lemma logTransaction_distinct:
  "logTransaction env db row = Some db' \<Longrightarrow> distinct (map transaction_id (transactions db)) \<Longrightarrow>
     distinct (map transaction_id (transactions db'))"
  by (auto simp: logTransaction_def split: if_splits)

lemma initiatePayment_db:
  "ih_db (initiatePayment env net svc db req) = db
   \<or> (\<exists>row db1. logTransaction env db row = Some db1
        \<and> (ih_db (initiatePayment env net svc db req) = db1
           \<or> (\<exists>x sd. logSplitExecution env db1 x sd = Some (ih_db (initiatePayment env net svc db req)))))"
  by (auto simp: initiatePayment_def Let_def internal_server_error_def
      split: if_splits sum.splits prod.splits outcome.splits gateway_result.splits option.splits)

lemma initiatePayment_distinct:
  assumes "distinct (map transaction_id (transactions db))"
  shows "distinct (map transaction_id (transactions (ih_db (initiatePayment env net svc db req))))"
proof -
  from initiatePayment_db [of env net svc db req] show ?thesis
  proof (elim disjE exE conjE)
    assume "ih_db (initiatePayment env net svc db req) = db"
    with assms show ?thesis by simp
  next
    fix row db1
    assume "logTransaction env db row = Some db1" "ih_db (initiatePayment env net svc db req) = db1"
    with assms show ?thesis by (simp add: logTransaction_distinct)
  next
    fix row db1 x sd
    assume l: "logTransaction env db row = Some db1"
      and s: "logSplitExecution env db1 x sd = Some (ih_db (initiatePayment env net svc db req))"
    from logTransaction_distinct [OF l assms] logSplitExecution_ids [OF s]
    show ?thesis by simp
  qed
qed

subsection \<open>Amount sanitization and the payment route\<close>





















end
